theory Spec2Isabelle
  imports Main "HOL-Library.Multiset" "HOL-Library.Word"
begin

section \<open>Data model\<close>

text \<open>
  The way a Go panic ends the program: an index expression out of range, or a field
  read through a nil pointer.
\<close>

datatype panic = IndexOutOfRange | NilDereference

text \<open>
  \<^verbatim>\<open>AddressInfo\<close> of main.go, the row of the output table. Go strings are byte
  sequences, as \<^typ>\<open>string\<close> is.
\<close>

record AddressInfo =
  Project :: string
  IP :: string
  Status :: string
  Subnet :: string
  User :: string

text \<open>
  The fields of the compute API's response types that main.go reads. A slice of pointers
  is a list of options (\<open>None\<close> is a nil element); a slice that the code compares with
  nil is an option of a list (\<open>None\<close> is the nil slice, \<open>Some []\<close> an empty one). The
  \<^verbatim>\<open>Items\<close> maps are ranged over with the key ignored: they are the list of their
  entries in the order that one range statement visits them.
\<close>

record Address =
  Address_Address :: string
  Address_Status :: string
  Address_Subnetwork :: string
  Address_Users :: "string list option"

record AddressesScopedList =
  Addresses :: "Address option list option"

record AddressAggregatedList =
  Address_Items :: "(string \<times> AddressesScopedList) list"

record NetworkInterface =
  NetworkIP :: string
  NetworkInterface_Subnetwork :: string

record Instance =
  Name :: string
  NetworkInterfaces :: "NetworkInterface option list"

record InstancesScopedList =
  Instances :: "Instance option list option"

record InstanceAggregatedList =
  Instance_Items :: "(string \<times> InstancesScopedList) list"

text \<open>\<^verbatim>\<open>projectResources\<close>: both lists are pointers, nil when the fetch failed.\<close>

record projectResources =
  Resources_Project :: string
  AddressList :: "AddressAggregatedList option"
  InstanceList :: "InstanceAggregatedList option"

section \<open>The merger\<close>

text \<open>
  \<^verbatim>\<open>insertAddressInfo\<close>. The Go map holds pointers and the existing entry is updated in
  place; every record that \<^verbatim>\<open>flatten\<close> inserts is freshly allocated, so no two keys
  share a pointer and the map of values says the same.
\<close>

definition insertAddressInfo ::
  "(string \<rightharpoonup> AddressInfo) \<Rightarrow> AddressInfo \<Rightarrow> (string \<rightharpoonup> AddressInfo)" where
  "insertAddressInfo addressInfoMap addressInfo =
     (let ip = IP addressInfo in
      case addressInfoMap ip of
        Some existingInfo \<Rightarrow>
          (let e1 = (if Status existingInfo = [] then existingInfo\<lparr>Status := Status addressInfo\<rparr>
                     else existingInfo);
               e2 = (if Subnet e1 = [] then e1\<lparr>Subnet := Subnet addressInfo\<rparr> else e1);
               e3 = (if User e2 = [] then e2\<lparr>User := User addressInfo\<rparr> else e2)
           in addressInfoMap(ip \<mapsto> e3))
      | None \<Rightarrow> addressInfoMap(ip \<mapsto> addressInfo))"

text \<open>
  \<^verbatim>\<open>strings.Split(s, "/")\<close> of the Go library: cut at the first separator, go on with
  the rest, and end with what is left when no separator remains.
\<close>

function Split :: "string \<Rightarrow> string list" where
  "Split s =
     (case dropWhile (\<lambda>c. c \<noteq> CHR ''/'') s of
        [] \<Rightarrow> [s]
      | _ # rest \<Rightarrow> takeWhile (\<lambda>c. c \<noteq> CHR ''/'') s # Split rest)"
  by pat_completeness auto
termination
proof (relation "measure length")
  show "wf (measure length)" by simp
next
  fix s :: string and x rest
  assume "dropWhile (\<lambda>c. c \<noteq> CHR ''/'') s = x # rest"
  moreover have "length (dropWhile (\<lambda>c. c \<noteq> CHR ''/'') s) \<le> length s"
    by (rule length_dropWhile_le)
  ultimately show "(rest, s) \<in> measure length" by simp
qed

declare Split.simps [simp del]

text \<open>\<^verbatim>\<open>getName\<close>: the last element of the split, with the bounds check of the index.\<close>

definition getName :: "string \<Rightarrow> panic + string" where
  "getName selfLink =
     (let split = Split selfLink in
      if length split = 0 then Inl IndexOutOfRange
      else Inr (split ! (length split - 1)))"

text \<open>A range loop whose body may panic: the first panic ends it.\<close>

fun forEach :: "('s \<Rightarrow> 'a \<Rightarrow> panic + 's) \<Rightarrow> 'a list \<Rightarrow> 's \<Rightarrow> panic + 's" where
  "forEach body [] s = Inr s"
| "forEach body (x # xs) s =
     (case body s x of Inl e \<Rightarrow> Inl e | Inr s' \<Rightarrow> forEach body xs s')"

text \<open>The body of the loop over the addresses of one scoped list (lines 177 to 191).\<close>

fun addressStep ::
  "string \<Rightarrow> (string \<rightharpoonup> AddressInfo) \<Rightarrow> Address option \<Rightarrow> panic + (string \<rightharpoonup> AddressInfo)" where
  "addressStep project addressInfoMap None = Inl NilDereference"
| "addressStep project addressInfoMap (Some address) =
     (case (case Address_Users address of
              None \<Rightarrow> Inr []
            | Some users \<Rightarrow> (case users of [] \<Rightarrow> Inl IndexOutOfRange | u # _ \<Rightarrow> getName u)) of
        Inl e \<Rightarrow> Inl e
      | Inr user \<Rightarrow>
          (case getName (Address_Subnetwork address) of
             Inl e \<Rightarrow> Inl e
           | Inr subnet \<Rightarrow>
               Inr (insertAddressInfo addressInfoMap
                 \<lparr>Project = project, IP = Address_Address address,
                  Status = Address_Status address, Subnet = subnet, User = user\<rparr>)))"

text \<open>The body of the loop over the instances of one scoped list (lines 200 to 207).\<close>

fun instanceStep ::
  "string \<Rightarrow> (string \<rightharpoonup> AddressInfo) \<Rightarrow> Instance option \<Rightarrow> panic + (string \<rightharpoonup> AddressInfo)" where
  "instanceStep project addressInfoMap None = Inl NilDereference"
| "instanceStep project addressInfoMap (Some instance) =
     (case NetworkInterfaces instance of
        [] \<Rightarrow> Inl IndexOutOfRange
      | None # _ \<Rightarrow> Inl NilDereference
      | Some ni # _ \<Rightarrow>
          (case getName (NetworkInterface_Subnetwork ni) of
             Inl e \<Rightarrow> Inl e
           | Inr subnet \<Rightarrow>
               Inr (insertAddressInfo addressInfoMap
                 \<lparr>Project = project, IP = NetworkIP ni,
                  Status = [], Subnet = subnet, User = Name instance\<rparr>)))"

definition addressScope ::
  "string \<Rightarrow> (string \<rightharpoonup> AddressInfo) \<Rightarrow> string \<times> AddressesScopedList
     \<Rightarrow> panic + (string \<rightharpoonup> AddressInfo)" where
  "addressScope project addressInfoMap entry =
     (case Addresses (snd entry) of
        None \<Rightarrow> Inr addressInfoMap
      | Some addresses \<Rightarrow> forEach (addressStep project) addresses addressInfoMap)"

definition instanceScope ::
  "string \<Rightarrow> (string \<rightharpoonup> AddressInfo) \<Rightarrow> string \<times> InstancesScopedList
     \<Rightarrow> panic + (string \<rightharpoonup> AddressInfo)" where
  "instanceScope project addressInfoMap entry =
     (case Instances (snd entry) of
        None \<Rightarrow> Inr addressInfoMap
      | Some instances \<Rightarrow> forEach (instanceStep project) instances addressInfoMap)"

text \<open>
  The body of the outer loop of \<^verbatim>\<open>flatten\<close>: the addresses of the project, then its
  instances. The two log lines for an absent list are left out.
\<close>

fun projectStep ::
  "(string \<rightharpoonup> AddressInfo) \<Rightarrow> projectResources option \<Rightarrow> panic + (string \<rightharpoonup> AddressInfo)" where
  "projectStep addressInfoMap None = Inl NilDereference"
| "projectStep addressInfoMap (Some p) =
     (case (case AddressList p of
              None \<Rightarrow> Inr addressInfoMap
            | Some al \<Rightarrow>
                forEach (addressScope (Resources_Project p)) (Address_Items al) addressInfoMap) of
        Inl e \<Rightarrow> Inl e
      | Inr m \<Rightarrow>
          (case InstanceList p of
             None \<Rightarrow> Inr m
           | Some il \<Rightarrow> forEach (instanceScope (Resources_Project p)) (Instance_Items il) m))"

definition flatten :: "projectResources option list \<Rightarrow> panic + (string \<rightharpoonup> AddressInfo)" where
  "flatten projectResourceList = forEach projectStep projectResourceList Map.empty"

text \<open>
  What the merger reads from its input, for the statements below: the IP that one
  address or instance record names, and the union of them over a scoped list, a project
  and the whole list of projects.
\<close>

definition ipOfAddress :: "Address option \<Rightarrow> string set" where
  "ipOfAddress a = (case a of None \<Rightarrow> {} | Some address \<Rightarrow> {Address_Address address})"

definition ipOfInstance :: "Instance option \<Rightarrow> string set" where
  "ipOfInstance i =
     (case i of
        None \<Rightarrow> {}
      | Some instance \<Rightarrow>
          (case NetworkInterfaces instance of Some ni # _ \<Rightarrow> {NetworkIP ni} | _ \<Rightarrow> {}))"

definition ipsOfAddressScope :: "string \<times> AddressesScopedList \<Rightarrow> string set" where
  "ipsOfAddressScope entry =
     (case Addresses (snd entry) of None \<Rightarrow> {} | Some as \<Rightarrow> \<Union> (ipOfAddress ` set as))"

definition ipsOfInstanceScope :: "string \<times> InstancesScopedList \<Rightarrow> string set" where
  "ipsOfInstanceScope entry =
     (case Instances (snd entry) of None \<Rightarrow> {} | Some is \<Rightarrow> \<Union> (ipOfInstance ` set is))"

definition ipsOfAddressList :: "AddressAggregatedList option \<Rightarrow> string set" where
  "ipsOfAddressList l =
     (case l of None \<Rightarrow> {} | Some al \<Rightarrow> \<Union> (ipsOfAddressScope ` set (Address_Items al)))"

definition ipsOfInstanceList :: "InstanceAggregatedList option \<Rightarrow> string set" where
  "ipsOfInstanceList l =
     (case l of None \<Rightarrow> {} | Some il \<Rightarrow> \<Union> (ipsOfInstanceScope ` set (Instance_Items il)))"

definition ipsOfProject :: "projectResources option \<Rightarrow> string set" where
  "ipsOfProject p =
     (case p of
        None \<Rightarrow> {}
      | Some r \<Rightarrow> ipsOfAddressList (AddressList r) \<union> ipsOfInstanceList (InstanceList r))"

definition sourceIPs :: "projectResources option list \<Rightarrow> string set" where
  "sourceIPs ps = \<Union> (ipsOfProject ` set ps)"

text \<open>Every entry of the map sits under its own IP.\<close>

definition keyedByIP :: "(string \<rightharpoonup> AddressInfo) \<Rightarrow> bool" where
  "keyedByIP m = (\<forall>k r. m k = Some r \<longrightarrow> IP r = k)"

text \<open>
  The inputs on which no index expression of \<^verbatim>\<open>flatten\<close> is out of range: a users
  list that is present is not empty, and an instance has a network interface.
\<close>

definition addressIndexSafe :: "Address option \<Rightarrow> bool" where
  "addressIndexSafe a =
     (case a of None \<Rightarrow> True | Some address \<Rightarrow> Address_Users address \<noteq> Some [])"

definition instanceIndexSafe :: "Instance option \<Rightarrow> bool" where
  "instanceIndexSafe i =
     (case i of None \<Rightarrow> True | Some instance \<Rightarrow> NetworkInterfaces instance \<noteq> [])"

definition addressScopeIndexSafe :: "string \<times> AddressesScopedList \<Rightarrow> bool" where
  "addressScopeIndexSafe entry =
     (case Addresses (snd entry) of None \<Rightarrow> True | Some as \<Rightarrow> list_all addressIndexSafe as)"

definition instanceScopeIndexSafe :: "string \<times> InstancesScopedList \<Rightarrow> bool" where
  "instanceScopeIndexSafe entry =
     (case Instances (snd entry) of None \<Rightarrow> True | Some is \<Rightarrow> list_all instanceIndexSafe is)"

definition projectIndexSafe :: "projectResources option \<Rightarrow> bool" where
  "projectIndexSafe p =
     (case p of
        None \<Rightarrow> True
      | Some r \<Rightarrow>
          (case AddressList r of
             None \<Rightarrow> True
           | Some al \<Rightarrow> list_all addressScopeIndexSafe (Address_Items al)) \<and>
          (case InstanceList r of
             None \<Rightarrow> True
           | Some il \<Rightarrow> list_all instanceScopeIndexSafe (Instance_Items il)))"

definition indexSafe :: "projectResources option list \<Rightarrow> bool" where
  "indexSafe ps = list_all projectIndexSafe ps"

text \<open>
  The inputs on which \<^verbatim>\<open>flatten\<close> reads through no nil pointer: no project, address
  or instance is nil, and neither is the first network interface of an instance.
\<close>

definition instanceNonNil :: "Instance option \<Rightarrow> bool" where
  "instanceNonNil i =
     (case i of
        None \<Rightarrow> False
      | Some instance \<Rightarrow> (case NetworkInterfaces instance of None # _ \<Rightarrow> False | _ \<Rightarrow> True))"

definition addressScopeNonNil :: "string \<times> AddressesScopedList \<Rightarrow> bool" where
  "addressScopeNonNil entry =
     (case Addresses (snd entry) of None \<Rightarrow> True | Some as \<Rightarrow> list_all (\<lambda>a. a \<noteq> None) as)"

definition instanceScopeNonNil :: "string \<times> InstancesScopedList \<Rightarrow> bool" where
  "instanceScopeNonNil entry =
     (case Instances (snd entry) of None \<Rightarrow> True | Some is \<Rightarrow> list_all instanceNonNil is)"

definition projectNonNil :: "projectResources option \<Rightarrow> bool" where
  "projectNonNil p =
     (case p of
        None \<Rightarrow> False
      | Some r \<Rightarrow>
          (case AddressList r of
             None \<Rightarrow> True
           | Some al \<Rightarrow> list_all addressScopeNonNil (Address_Items al)) \<and>
          (case InstanceList r of
             None \<Rightarrow> True
           | Some il \<Rightarrow> list_all instanceScopeNonNil (Instance_Items il)))"

definition nonNil :: "projectResources option list \<Rightarrow> bool" where
  "nonNil ps = list_all projectNonNil ps"

text \<open>
  A record \<open>r\<close> of the map has taken in the candidate \<open>c\<close>: no field that the
  candidate fills is empty in it.
\<close>

definition covers :: "AddressInfo \<Rightarrow> AddressInfo \<Rightarrow> bool" where
  "covers r c =
     ((Status c \<noteq> [] \<longrightarrow> Status r \<noteq> []) \<and>
      (Subnet c \<noteq> [] \<longrightarrow> Subnet r \<noteq> []) \<and> (User c \<noteq> [] \<longrightarrow> User r \<noteq> []))"

text \<open>
  The candidate that \<^verbatim>\<open>flatten\<close> builds from an address record of a project. On a
  users list that is present and empty it panics and builds none.
\<close>

definition addressCandidate :: "string \<Rightarrow> Address \<Rightarrow> AddressInfo" where
  "addressCandidate project address =
     \<lparr>Project = project, IP = Address_Address address, Status = Address_Status address,
      Subnet = last (Split (Address_Subnetwork address)),
      User = (case Address_Users address of
                None \<Rightarrow> []
              | Some users \<Rightarrow> (case users of [] \<Rightarrow> [] | u # _ \<Rightarrow> last (Split u)))\<rparr>"

text \<open>The candidate that it builds from an instance and its first network interface.\<close>

definition instanceCandidate :: "string \<Rightarrow> Instance \<Rightarrow> NetworkInterface \<Rightarrow> AddressInfo" where
  "instanceCandidate project instance ni =
     \<lparr>Project = project, IP = NetworkIP ni, Status = [],
      Subnet = last (Split (NetworkInterface_Subnetwork ni)), User = Name instance\<rparr>"

text \<open>An entry only grows: its IP and project stay, and so does every field once filled.\<close>

definition grows :: "(string \<rightharpoonup> AddressInfo) \<Rightarrow> (string \<rightharpoonup> AddressInfo) \<Rightarrow> bool" where
  "grows m m' =
     (\<forall>k r. m k = Some r \<longrightarrow>
        (\<exists>r'. m' k = Some r' \<and> IP r' = IP r \<and> Project r' = Project r \<and>
           (Status r \<noteq> [] \<longrightarrow> Status r' = Status r) \<and>
           (Subnet r \<noteq> [] \<longrightarrow> Subnet r' = Subnet r) \<and>
           (User r \<noteq> [] \<longrightarrow> User r' = User r)))"

text \<open>The non-nil addresses of an aggregated list.\<close>

definition addressesOf :: "AddressAggregatedList \<Rightarrow> Address set" where
  "addressesOf al =
     {a. \<exists>entry as. entry \<in> set (Address_Items al) \<and> Addresses (snd entry) = Some as \<and>
           Some a \<in> set as}"

text \<open>A record with no empty field, and a candidate that carries nothing but its IP.\<close>

definition fullyPopulated :: "AddressInfo \<Rightarrow> bool" where
  "fullyPopulated r =
     (Project r \<noteq> [] \<and> IP r \<noteq> [] \<and> Status r \<noteq> [] \<and> Subnet r \<noteq> [] \<and> User r \<noteq> [])"

definition onlyIP :: "AddressInfo \<Rightarrow> bool" where
  "onlyIP c = (Project c = [] \<and> Status c = [] \<and> Subnet c = [] \<and> User c = [])"

text \<open>
  The two service projects of the end-to-end scenario: svc-a reserves 10.0.0.5 in sub1
  with no user, svc-b runs the instance vm1 on that IP. svc-a has a zone without
  instances, svc-b a region without addresses.
\<close>

definition svc_a_address :: Address where
  "svc_a_address =
     \<lparr>Address_Address = ''10.0.0.5'', Address_Status = ''RESERVED'',
      Address_Subnetwork = ''projects/H/regions/r1/subnetworks/sub1'', Address_Users = None\<rparr>"

definition svc_a_addresses :: AddressAggregatedList where
  "svc_a_addresses =
     \<lparr>Address_Items = [(''regions/r1'', \<lparr>Addresses = Some [Some svc_a_address]\<rparr>)]\<rparr>"

definition svc_a :: projectResources where
  "svc_a =
     \<lparr>Resources_Project = ''svc-a'', AddressList = Some svc_a_addresses,
      InstanceList = Some \<lparr>Instance_Items = [(''zones/z1'', \<lparr>Instances = None\<rparr>)]\<rparr>\<rparr>"

definition svc_b :: projectResources where
  "svc_b =
     \<lparr>Resources_Project = ''svc-b'',
      AddressList = Some \<lparr>Address_Items = [(''regions/r1'', \<lparr>Addresses = None\<rparr>)]\<rparr>,
      InstanceList = Some \<lparr>Instance_Items =
        [(''zones/z1'', \<lparr>Instances = Some [Some
           \<lparr>Name = ''vm1'', NetworkInterfaces = [Some
              \<lparr>NetworkIP = ''10.0.0.5'',
               NetworkInterface_Subnetwork = ''projects/H/regions/r1/subnetworks/sub1''\<rparr>]\<rparr>]\<rparr>)]\<rparr>\<rparr>"

section \<open>The grouper\<close>

text \<open>
  A range statement over a Go map visits every key once, in an order that the runtime
  chooses. The order is a parameter of the model: \<open>rangeOrder keys m\<close> says that
  \<open>keys\<close> is such an enumeration of the map \<open>m\<close>.
\<close>

definition rangeOrder :: "'k list \<Rightarrow> ('k \<rightharpoonup> 'v) \<Rightarrow> bool" where
  "rangeOrder keys m = (distinct keys \<and> set keys = dom m)"

text \<open>
  The body of the loop of \<^verbatim>\<open>extractFields\<close>: a missing key reads as the nil slice,
  and \<^verbatim>\<open>append\<close> puts the record at the end.
\<close>

definition appendBySubnet ::
  "(string \<rightharpoonup> AddressInfo list) \<Rightarrow> AddressInfo \<Rightarrow> (string \<rightharpoonup> AddressInfo list)" where
  "appendBySubnet addressInfoBySubnet addressInfo =
     (let subnet = Subnet addressInfo in
      addressInfoBySubnet(subnet \<mapsto>
        (case addressInfoBySubnet subnet of None \<Rightarrow> [] | Some l \<Rightarrow> l) @ [addressInfo]))"

definition groupBySubnet ::
  "string list \<Rightarrow> (string \<rightharpoonup> AddressInfo) \<Rightarrow> (string \<rightharpoonup> AddressInfo list)" where
  "groupBySubnet keys addressInfoByIP =
     fold (\<lambda>k g. case addressInfoByIP k of None \<Rightarrow> g | Some addressInfo \<Rightarrow> appendBySubnet g addressInfo)
       keys Map.empty"

text \<open>\<^verbatim>\<open>extractFields\<close>, with the order in which its loop visits the IPs.\<close>

definition extractFields ::
  "string list \<Rightarrow> projectResources option list \<Rightarrow> panic + (string \<rightharpoonup> AddressInfo list)" where
  "extractFields keys projectResourceList =
     (case flatten projectResourceList of
        Inl e \<Rightarrow> Inl e
      | Inr addressInfoByIP \<Rightarrow> Inr (groupBySubnet keys addressInfoByIP))"

text \<open>The records of a subnet in the grouping; none when the subnet is no key.\<close>

definition groupOf :: "(string \<rightharpoonup> AddressInfo list) \<Rightarrow> string \<Rightarrow> AddressInfo list" where
  "groupOf g subnet = (case g subnet of None \<Rightarrow> [] | Some l \<Rightarrow> l)"

section \<open>The reporter\<close>

type_synonym byte = "8 word"

text \<open>
  \<^verbatim>\<open>bytes.Compare\<close> of the Go library: the lexicographic comparison of two byte
  slices, \<open>-1\<close>, \<open>0\<close> or \<open>1\<close>; a nil slice is an empty one.
\<close>

fun Compare :: "byte list \<Rightarrow> byte list \<Rightarrow> int" where
  "Compare [] [] = 0"
| "Compare [] (y # ys) = - 1"
| "Compare (x # xs) [] = 1"
| "Compare (x # xs) (y # ys) = (if x < y then - 1 else if y < x then 1 else Compare xs ys)"

text \<open>
  \<^verbatim>\<open>sort.Slice\<close> of the Go library, as the insertion sort that it runs on a short
  slice: each element in turn moves down past the elements before it for as long as
  it is less than its neighbour. \<open>sink\<close> is the inner loop, on the sorted part of the
  slice read from its end backwards. The library promises an ordered permutation and
  no stable order of equal elements; nothing below relies on more.
\<close>

fun sink :: "('a \<Rightarrow> 'a \<Rightarrow> bool) \<Rightarrow> 'a \<Rightarrow> 'a list \<Rightarrow> 'a list" where
  "sink lessFn x [] = [x]"
| "sink lessFn x (y # ys) = (if lessFn x y then y # sink lessFn x ys else x # y # ys)"

definition sortSlice :: "('a \<Rightarrow> 'a \<Rightarrow> bool) \<Rightarrow> 'a list \<Rightarrow> 'a list" where
  "sortSlice lessFn xs = rev (foldl (\<lambda>sorted x. sink lessFn x sorted) [] xs)"

text \<open>
  The comparison that \<^verbatim>\<open>writeToFile\<close> hands to \<^verbatim>\<open>sort.Slice\<close>, and the rows that it
  hands to the table: the records sorted, each as IP, project, status and user.
  \<open>parseIP\<close> stands for \<^verbatim>\<open>net.ParseIP\<close>, which returns nil, the empty slice, for a
  string that is no IP address.
\<close>

definition ipLess :: "(string \<Rightarrow> byte list) \<Rightarrow> AddressInfo \<Rightarrow> AddressInfo \<Rightarrow> bool" where
  "ipLess parseIP x y = (Compare (parseIP (IP x)) (parseIP (IP y)) < 0)"

definition tableData :: "(string \<Rightarrow> byte list) \<Rightarrow> AddressInfo list \<Rightarrow> string list list" where
  "tableData parseIP addressInfoList =
     map (\<lambda>addressInfo. [IP addressInfo, Project addressInfo, Status addressInfo, User addressInfo])
       (sortSlice (ipLess parseIP) addressInfoList)"

text \<open>
  \<^verbatim>\<open>net.ParseIP\<close> of the Go library on dotted decimal: the first dot or colon of the
  string decides between the two forms, and four decimal numbers of at most 255,
  separated by dots, give the 16 bytes of the IPv4 address mapped into IPv6. The
  parser of the colon form is a parameter. Later releases of the library also refuse
  a number with a leading zero; no input evaluated below has one.
\<close>

fun dtoiLoop :: "nat \<Rightarrow> nat \<Rightarrow> string \<Rightarrow> nat \<times> nat \<times> bool" where
  "dtoiLoop n i [] = (if i = 0 then (0, 0, False) else (n, i, True))"
| "dtoiLoop n i (c # s) =
     (if 48 \<le> (of_char c :: nat) \<and> (of_char c :: nat) \<le> 57 then
        (let n' = n * 10 + (of_char c - 48) in
         if n' \<ge> 0xFFFFFF then (0xFFFFFF, i, False) else dtoiLoop n' (i + 1) s)
      else if i = 0 then (0, 0, False) else (n, i, True))"

definition dtoi :: "string \<Rightarrow> nat \<times> nat \<times> bool" where
  "dtoi s = dtoiLoop 0 0 s"

fun parseIPv4Loop :: "nat \<Rightarrow> nat \<Rightarrow> string \<Rightarrow> byte list \<Rightarrow> byte list option" where
  "parseIPv4Loop 0 i s p = (if s \<noteq> [] then None else Some p)"
| "parseIPv4Loop (Suc remaining) i s p =
     (if s = [] then None
      else
        (case (if i > 0 then (if hd s \<noteq> CHR ''.'' then None else Some (tl s)) else Some s) of
           None \<Rightarrow> None
         | Some s1 \<Rightarrow>
             (case dtoi s1 of
                (n, c, ok) \<Rightarrow>
                  if \<not> ok \<or> n > 0xFF then None
                  else parseIPv4Loop remaining (i + 1) (drop c s1) (p @ [of_nat n]))))"

definition v4InV6Prefix :: "byte list" where
  "v4InV6Prefix = [0, 0, 0, 0, 0, 0, 0, 0, 0, 0, 0xff, 0xff]"

definition parseIPv4 :: "string \<Rightarrow> byte list" where
  "parseIPv4 s =
     (case parseIPv4Loop 4 0 s [] of
        None \<Rightarrow> []
      | Some p \<Rightarrow> v4InV6Prefix @ p)"

definition ParseIP :: "(string \<Rightarrow> byte list) \<Rightarrow> string \<Rightarrow> byte list" where
  "ParseIP parseIPv6 s =
     (case dropWhile (\<lambda>c. c \<noteq> CHR ''.'' \<and> c \<noteq> CHR '':'') s of
        [] \<Rightarrow> []
      | c # _ \<Rightarrow> if c = CHR ''.'' then parseIPv4 s else parseIPv6 s)"

section \<open>The run\<close>

text \<open>
  How a part of the program ends: it returns, it calls \<^verbatim>\<open>log.Fatal\<close>, which logs the
  error and exits with status 1, or it panics, which exits with status 2.
\<close>

datatype 'a run = Done 'a | Fatal string | Panicked panic

fun exitCode :: "'a run \<Rightarrow> nat" where
  "exitCode (Done _) = 0"
| "exitCode (Fatal _) = 1"
| "exitCode (Panicked _) = 2"

text \<open>
  What the program does to its sinks, in order: a file created, a string written to a
  file, a table of rows handed to the renderer of a file, a file closed. The renderer
  and the deferred close give \<^verbatim>\<open>writeToFile\<close> no error to look at: an error that
  one of them meets is dropped, and \<open>Dropped\<close> records it after the call.
\<close>

datatype sinkOp =
  Create string | WriteString string string | Render string "string list list" | Close string
  | Dropped string string

definition dropped :: "string option \<Rightarrow> string \<Rightarrow> sinkOp list" where
  "dropped e f = (case e of None \<Rightarrow> [] | Some err \<Rightarrow> [Dropped f err])"

text \<open>
  Everything outside the program that one run meets: the outcome of creating the API
  client, the answers of the three API calls (an error, or the list; the client returns
  a nil list with an error), the order in which the fetched projects arrive on the
  channel (positions in the list of service projects), the orders of the two range
  statements over maps, the files that cannot be created, whose heading cannot be
  written, whose table cannot be written and that cannot be closed, and
  \<^verbatim>\<open>net.ParseIP\<close>. A nil element of the list of service projects is \<open>None\<close>.
\<close>

record world =
  initClientError :: "string option"
  GetXpnResources :: "string \<Rightarrow> string + string option list"
  AddressesAggregatedList :: "string \<Rightarrow> string + AddressAggregatedList"
  InstancesAggregatedList :: "string \<Rightarrow> string + InstanceAggregatedList"
  arrival :: "nat list"
  ipOrder :: "string list"
  subnetOrder :: "string list"
  CreateError :: "string \<Rightarrow> string option"
  WriteStringError :: "string \<Rightarrow> string option"
  RenderError :: "string \<Rightarrow> string option"
  CloseError :: "string \<Rightarrow> string option"
  netParseIP :: "string \<Rightarrow> byte list"

text \<open>
  \<^verbatim>\<open>getResources\<close>: both calls are made, an error is logged and nothing else, and the
  result is always a snapshot.
\<close>

definition getResources :: "world \<Rightarrow> string \<Rightarrow> projectResources" where
  "getResources w project =
     (let addressAggregatedList =
            (case AddressesAggregatedList w project of Inl err \<Rightarrow> None | Inr l \<Rightarrow> Some l);
          instanceAggregatedList =
            (case InstancesAggregatedList w project of Inl err \<Rightarrow> None | Inr l \<Rightarrow> Some l)
      in \<lparr>Resources_Project = project, AddressList = addressAggregatedList,
          InstanceList = instanceAggregatedList\<rparr>)"

text \<open>
  \<^verbatim>\<open>getAllResources\<close>: a failure to list the service projects is fatal. Otherwise one
  goroutine per service project sends its snapshot, and the snapshots are collected in
  the order of their arrival.
\<close>

fun projectIDs :: "string option list \<Rightarrow> panic + string list" where
  "projectIDs [] = Inr []"
| "projectIDs (None # resources) = Inl NilDereference"
| "projectIDs (Some projectID # resources) =
     (case projectIDs resources of Inl e \<Rightarrow> Inl e | Inr ids \<Rightarrow> Inr (projectID # ids))"

definition getAllResources :: "world \<Rightarrow> string \<Rightarrow> projectResources option list run" where
  "getAllResources w hostProject =
     (case GetXpnResources w hostProject of
        Inl err \<Rightarrow> Fatal err
      | Inr resources \<Rightarrow>
          (case projectIDs resources of
             Inl e \<Rightarrow> Panicked e
           | Inr ids \<Rightarrow> Done (map (\<lambda>i. Some (getResources w (ids ! i))) (arrival w))))"

text \<open>The arrival order is an order of all the goroutines that were started.\<close>

definition validArrival :: "world \<Rightarrow> nat \<Rightarrow> bool" where
  "validArrival w n = (mset (arrival w) = mset [0..<n])"

text \<open>
  \<^verbatim>\<open>writeToFile\<close>, from the sink operations done so far to the way it ends and the
  operations done then. A file that cannot be created, or a heading that cannot be
  written, is fatal. \<^verbatim>\<open>table.Render()\<close> is a statement of its own and the close is
  deferred with its result unread, so a failure of either changes nothing in what
  \<^verbatim>\<open>writeToFile\<close> does next; the deferred close runs when the function returns,
  and not when \<^verbatim>\<open>log.Fatal\<close> exits. The log line is left out.
\<close>

definition writeToFile ::
  "world \<Rightarrow> string \<Rightarrow> AddressInfo list \<Rightarrow> sinkOp list \<Rightarrow> unit run \<times> sinkOp list" where
  "writeToFile w subnet addressInfoList sofar =
     (let f = subnet @ ''.md'' in
      case CreateError w f of
        Some err \<Rightarrow> (Fatal err, sofar)
      | None \<Rightarrow>
          (case WriteStringError w f of
             Some err \<Rightarrow> (Fatal err, sofar @ [Create f])
           | None \<Rightarrow>
               (Done (),
                sofar @ [Create f, WriteString f (''# Reserved IPs for '' @ subnet @ [CHR 0x0A]),
                  Render f (tableData (netParseIP w) addressInfoList)] @
                dropped (RenderError w f) f @ [Close f] @ dropped (CloseError w f) f)))"

text \<open>
  \<^verbatim>\<open>writeAll\<close>: the loop over the subnets, in the order of the range statement, which
  leaves out the empty subnet and ends where \<^verbatim>\<open>writeToFile\<close> does not return.
\<close>

fun writeAllLoop ::
  "world \<Rightarrow> (string \<rightharpoonup> AddressInfo list) \<Rightarrow> string list \<Rightarrow> sinkOp list
     \<Rightarrow> unit run \<times> sinkOp list" where
  "writeAllLoop w addressesBySubnet [] sofar = (Done (), sofar)"
| "writeAllLoop w addressesBySubnet (subnet # rest) sofar =
     (case addressesBySubnet subnet of
        None \<Rightarrow> writeAllLoop w addressesBySubnet rest sofar
      | Some addressInfoList \<Rightarrow>
          if subnet \<noteq> [] then
            (case writeToFile w subnet addressInfoList sofar of
               (Done u, sofar') \<Rightarrow> writeAllLoop w addressesBySubnet rest sofar'
             | (Fatal err, sofar') \<Rightarrow> (Fatal err, sofar')
             | (Panicked e, sofar') \<Rightarrow> (Panicked e, sofar'))
          else writeAllLoop w addressesBySubnet rest sofar)"

definition writeAll ::
  "world \<Rightarrow> (string \<rightharpoonup> AddressInfo list) \<Rightarrow> sinkOp list \<Rightarrow> unit run \<times> sinkOp list" where
  "writeAll w addressesBySubnet sofar = writeAllLoop w addressesBySubnet (subnetOrder w) sofar"

text \<open>\<^verbatim>\<open>main\<close>, from the command line, without the log line of the elapsed time.\<close>

definition main :: "world \<Rightarrow> string list \<Rightarrow> unit run \<times> sinkOp list" where
  "main w args =
     (if length args < 2 then (Fatal ''Missing required parameter: host-project'', [])
      else
        (let hostProject = args ! 1 in
         case initClientError w of
           Some err \<Rightarrow> (Fatal err, [])
         | None \<Rightarrow>
             (case getAllResources w hostProject of
                Fatal err \<Rightarrow> (Fatal err, [])
              | Panicked e \<Rightarrow> (Panicked e, [])
              | Done resources \<Rightarrow>
                  (case extractFields (ipOrder w) resources of
                     Inl e \<Rightarrow> (Panicked e, [])
                   | Inr addressInfoBySubnet \<Rightarrow> writeAll w addressInfoBySubnet []))))"

text \<open>The IPs of which a sequence of sink operations rendered a row.\<close>

definition renderedIPs :: "sinkOp list \<Rightarrow> string set" where
  "renderedIPs ops = {ip. \<exists>f rows row. Render f rows \<in> set ops \<and> row \<in> set rows \<and> hd row = ip}"

text \<open>
  A third service project, svc-c, which reserves 10.0.0.7 with no subnetwork and no
  user and has no list of instances.
\<close>

definition svc_c :: projectResources where
  "svc_c =
     \<lparr>Resources_Project = ''svc-c'',
      AddressList = Some \<lparr>Address_Items =
        [(''global'', \<lparr>Addresses = Some [Some
           \<lparr>Address_Address = ''10.0.0.7'', Address_Status = ''RESERVED'',
            Address_Subnetwork = [], Address_Users = None\<rparr>]\<rparr>)]\<rparr>,
      InstanceList = None\<rparr>"

text \<open>
  A run of the end-to-end scenario in which nothing fails: the host project H has the
  service projects svc-a and svc-b, which arrive in this order.
\<close>

definition scenarioWorld :: world where
  "scenarioWorld =
     \<lparr>initClientError = None,
      GetXpnResources =
        (\<lambda>hostProject. if hostProject = ''H'' then Inr [Some ''svc-a'', Some ''svc-b'']
           else Inl ''notFound''),
      AddressesAggregatedList =
        (\<lambda>project. if project = ''svc-a'' then Inr svc_a_addresses
           else if project = ''svc-b'' then Inr (the (AddressList svc_b))
           else Inl ''notFound''),
      InstancesAggregatedList =
        (\<lambda>project. if project = ''svc-a'' then Inr (the (InstanceList svc_a))
           else if project = ''svc-b'' then Inr (the (InstanceList svc_b))
           else Inl ''notFound''),
      arrival = [0, 1],
      ipOrder = [''10.0.0.5''],
      subnetOrder = [''sub1''],
      CreateError = (\<lambda>f. None),
      WriteStringError = (\<lambda>f. None),
      RenderError = (\<lambda>f. None),
      CloseError = (\<lambda>f. None),
      netParseIP = ParseIP (\<lambda>s. [])\<rparr>"

text \<open>The same run, in which the table of every report meets a write error.\<close>

definition renderFailsWorld :: world where
  "renderFailsWorld = scenarioWorld\<lparr>RenderError := (\<lambda>f. Some ''full'')\<rparr>"

section \<open>Self-links\<close>

lemma Split_not_Nil: "Split s \<noteq> []"
  by (subst Split.simps) (simp split: list.splits)

lemma getName_Inr: "getName s = Inr (last (Split s))"
  by (simp add: getName_def Let_def Split_not_Nil last_conv_nth)

lemma last_Split: "last (Split s) = rev (takeWhile (\<lambda>c. c \<noteq> CHR ''/'') (rev s))"
proof (induction s rule: Split.induct)
  case (1 s)
  show ?case
  proof (cases "dropWhile (\<lambda>c. c \<noteq> CHR ''/'') s")
    case Nil
    then have "\<forall>c\<in>set s. c \<noteq> CHR ''/''" by simp
    then have tw: "takeWhile (\<lambda>c. c \<noteq> CHR ''/'') (rev s) = rev s" by simp
    have sp: "Split s = [s]" by (subst Split.simps) (simp only: Nil list.case)
    show ?thesis unfolding sp tw by simp
  next
    case (Cons x rest)
    then have x: "x = CHR ''/''" using hd_dropWhile[of "\<lambda>c. c \<noteq> CHR ''/''" s] by auto
    have s: "s = takeWhile (\<lambda>c. c \<noteq> CHR ''/'') s @ x # rest"
      using Cons takeWhile_dropWhile_id[of "\<lambda>c. c \<noteq> CHR ''/''" s] by simp
    have "last (Split s) = last (Split rest)"
      by (subst Split.simps) (simp only: Cons list.case last.simps Split_not_Nil if_False)
    also have "\<dots> = rev (takeWhile (\<lambda>c. c \<noteq> CHR ''/'') (rev rest))"
      using 1 Cons by simp
    finally have l: "last (Split s) = rev (takeWhile (\<lambda>c. c \<noteq> CHR ''/'') (rev rest))" .
    have "rev s = rev rest @ (x # rev (takeWhile (\<lambda>c. c \<noteq> CHR ''/'') s))"
      using arg_cong[OF s, of rev] by simp
    then have "takeWhile (\<lambda>c. c \<noteq> CHR ''/'') (rev s) = takeWhile (\<lambda>c. c \<noteq> CHR ''/'') (rev rest)"
      by (simp add: takeWhile_tail x)
    with l show ?thesis by simp
  qed
qed

section \<open>Inserting one candidate\<close>

lemma insert_new: "m (IP c) = None \<Longrightarrow> insertAddressInfo m c = m(IP c \<mapsto> c)"
  by (simp add: insertAddressInfo_def)

lemma insert_existing:
  "m (IP c) = Some e \<Longrightarrow>
   insertAddressInfo m c = m(IP c \<mapsto>
     e\<lparr>Status := (if Status e = [] then Status c else Status e),
       Subnet := (if Subnet e = [] then Subnet c else Subnet e),
       User := (if User e = [] then User c else User e)\<rparr>)"
  by (simp add: insertAddressInfo_def Let_def)

lemma dom_insertAddressInfo: "dom (insertAddressInfo m c) = insert (IP c) (dom m)"
  by (cases "m (IP c)") (auto simp: insert_new insert_existing)

lemma keyedByIP_insert: "keyedByIP m \<Longrightarrow> keyedByIP (insertAddressInfo m c)"
  by (cases "m (IP c)") (auto simp: insert_new insert_existing keyedByIP_def)

lemma grows_refl: "grows m m"
  by (simp add: grows_def)

lemma grows_trans:
  assumes "grows a b" and "grows b c"
  shows "grows a c"
  unfolding grows_def
proof (intro allI impI)
  fix k r
  assume "a k = Some r"
  with assms(1) obtain r1 where r1: "b k = Some r1" "IP r1 = IP r" "Project r1 = Project r"
    "Status r \<noteq> [] \<longrightarrow> Status r1 = Status r" "Subnet r \<noteq> [] \<longrightarrow> Subnet r1 = Subnet r"
    "User r \<noteq> [] \<longrightarrow> User r1 = User r"
    unfolding grows_def by blast
  from assms(2) r1(1) obtain r2 where r2: "c k = Some r2" "IP r2 = IP r1" "Project r2 = Project r1"
    "Status r1 \<noteq> [] \<longrightarrow> Status r2 = Status r1" "Subnet r1 \<noteq> [] \<longrightarrow> Subnet r2 = Subnet r1"
    "User r1 \<noteq> [] \<longrightarrow> User r2 = User r1"
    unfolding grows_def by blast
  show "\<exists>r'. c k = Some r' \<and> IP r' = IP r \<and> Project r' = Project r \<and>
           (Status r \<noteq> [] \<longrightarrow> Status r' = Status r) \<and>
           (Subnet r \<noteq> [] \<longrightarrow> Subnet r' = Subnet r) \<and>
           (User r \<noteq> [] \<longrightarrow> User r' = User r)"
    using r1 r2 by (intro exI[of _ r2]) simp
qed

lemma grows_insert: "grows m (insertAddressInfo m c)"
  by (cases "m (IP c)") (auto simp: insert_new insert_existing grows_def)

lemma covers_insert: "\<exists>r. insertAddressInfo m c (IP c) = Some r \<and> covers r c"
  by (cases "m (IP c)") (auto simp: insert_new insert_existing covers_def)

lemma covers_grows:
  "grows m m' \<Longrightarrow> \<exists>r. m k = Some r \<and> covers r c \<Longrightarrow> \<exists>r. m' k = Some r \<and> covers r c"
proof -
  assume g: "grows m m'" and "\<exists>r. m k = Some r \<and> covers r c"
  then obtain r where r: "m k = Some r" "covers r c" by blast
  with g obtain r' where r': "m' k = Some r'"
    "Status r \<noteq> [] \<longrightarrow> Status r' = Status r" "Subnet r \<noteq> [] \<longrightarrow> Subnet r' = Subnet r"
    "User r \<noteq> [] \<longrightarrow> User r' = User r"
    unfolding grows_def by blast
  from r(2) r'(2,3,4) have "covers r' c" unfolding covers_def by metis
  with r'(1) show ?thesis by blast
qed

section \<open>Loops\<close>

lemma forEach_invariant:
  assumes "forEach body xs s = Inr s'" and "P s"
    and "\<And>s x s'. x \<in> set xs \<Longrightarrow> P s \<Longrightarrow> body s x = Inr s' \<Longrightarrow> P s'"
  shows "P s'"
  using assms
proof (induction xs arbitrary: s)
  case Nil
  then show ?case by simp
next
  case (Cons x xs)
  from Cons.prems(1) obtain s1 where s1: "body s x = Inr s1" "forEach body xs s1 = Inr s'"
    by (auto split: sum.splits)
  have p1: "P s1" using Cons.prems(3)[of x s s1] Cons.prems(2) s1(1) by simp
  show ?case
    by (rule Cons.IH[OF s1(2) p1]) (use Cons.prems(3) in auto)
qed

lemma forEach_relates:
  assumes "forEach body xs s = Inr s'"
    and "\<And>s. R s s" and "\<And>a b c. R a b \<Longrightarrow> R b c \<Longrightarrow> R a c"
    and "\<And>s x s'. x \<in> set xs \<Longrightarrow> body s x = Inr s' \<Longrightarrow> R s s'"
  shows "R s s'"
proof -
  have "R s s'" using forEach_invariant[where P = "R s", OF assms(1) assms(2)] assms(3,4)
    by blast
  then show ?thesis .
qed

lemma forEach_dom:
  assumes "forEach body xs s = Inr s'"
    and "\<And>s x s'. x \<in> set xs \<Longrightarrow> body s x = Inr s' \<Longrightarrow> dom s' = dom s \<union> F x"
  shows "dom s' = dom s \<union> \<Union> (F ` set xs)"
  using assms
proof (induction xs arbitrary: s)
  case Nil
  then show ?case by simp
next
  case (Cons x xs)
  from Cons.prems(1) obtain s1 where s1: "body s x = Inr s1" "forEach body xs s1 = Inr s'"
    by (auto split: sum.splits)
  have d1: "dom s1 = dom s \<union> F x" using Cons.prems(2)[of x s s1] s1(1) by simp
  have "dom s' = dom s1 \<union> \<Union> (F ` set xs)"
    using Cons.IH[OF s1(2)] Cons.prems(2) by simp
  with d1 show ?case by auto
qed

lemma forEach_reaches:
  assumes "forEach body xs s = Inr s'" and "x \<in> set xs"
    and ext: "\<And>s y s'. y \<in> set xs \<Longrightarrow> body s y = Inr s' \<Longrightarrow> R s s'"
    and hit: "\<And>s s'. body s x = Inr s' \<Longrightarrow> Q s'"
    and mono: "\<And>s s'. Q s \<Longrightarrow> R s s' \<Longrightarrow> Q s'"
  shows "Q s'"
  using assms(1,2,3)
proof (induction xs arbitrary: s)
  case Nil
  then show ?case by simp
next
  case (Cons y ys)
  from Cons.prems(1) obtain s1 where s1: "body s y = Inr s1" "forEach body ys s1 = Inr s'"
    by (auto split: sum.splits)
  show ?case
  proof (cases "x \<in> set ys")
    case True
    show ?thesis
      by (rule Cons.IH[OF s1(2) True]) (use Cons.prems(3) in auto)
  next
    case False
    with Cons.prems(2) have "x = y" by simp
    with s1(1) have q: "Q s1" using hit by simp
    have "Q s'"
      using forEach_invariant[where P = Q, OF s1(2) q] mono Cons.prems(3) by (metis list.set_intros(2))
    then show ?thesis .
  qed
qed

lemma forEach_fails:
  assumes "forEach body xs s = Inl e"
  shows "\<exists>x\<in>set xs. \<exists>s0. body s0 x = Inl e"
  using assms
proof (induction xs arbitrary: s)
  case Nil
  then show ?case by simp
next
  case (Cons x xs)
  then show ?case by (cases "body s x") auto
qed

lemma forEach_succeeds:
  assumes "\<And>x s. x \<in> set xs \<Longrightarrow> \<exists>s'. body s x = Inr s'"
  shows "\<exists>s'. forEach body xs s = Inr s'"
  using assms
proof (induction xs arbitrary: s)
  case Nil
  then show ?case by simp
next
  case (Cons x xs)
  from Cons.prems[of x s] obtain s1 where "body s x = Inr s1" by auto
  moreover from Cons.IH[of s1] Cons.prems obtain s' where "forEach body xs s1 = Inr s'"
    by (metis list.set_intros(2))
  ultimately show ?case by simp
qed

section \<open>The steps of the merger\<close>

lemma addressStep_Some:
  "addressStep project m (Some a) =
     (if Address_Users a = Some [] then Inl IndexOutOfRange
      else Inr (insertAddressInfo m (addressCandidate project a)))"
  by (simp add: getName_Inr addressCandidate_def split: option.splits list.splits)

lemma instanceStep_Some:
  "instanceStep project m (Some i) =
     (case NetworkInterfaces i of
        [] \<Rightarrow> Inl IndexOutOfRange
      | None # _ \<Rightarrow> Inl NilDereference
      | Some ni # _ \<Rightarrow> Inr (insertAddressInfo m (instanceCandidate project i ni)))"
  by (simp add: getName_Inr instanceCandidate_def split: option.splits list.splits)

lemma addressStep_Inr:
  assumes "addressStep project m x = Inr m'"
  obtains a where "x = Some a" and "m' = insertAddressInfo m (addressCandidate project a)"
proof (cases x)
  case None
  with assms show ?thesis by simp
next
  case (Some a)
  with assms have "addressStep project m (Some a) = Inr m'" by simp
  then have "m' = insertAddressInfo m (addressCandidate project a)"
    unfolding addressStep_Some by (simp split: if_splits)
  with Some that show ?thesis by blast
qed

lemma instanceStep_Inr:
  assumes "instanceStep project m x = Inr m'"
  obtains i ni rest where "x = Some i" and "NetworkInterfaces i = Some ni # rest"
    and "m' = insertAddressInfo m (instanceCandidate project i ni)"
proof (cases x)
  case None
  with assms show ?thesis by simp
next
  case (Some i)
  with assms have "instanceStep project m (Some i) = Inr m'" by simp
  then have "\<exists>ni rest. NetworkInterfaces i = Some ni # rest \<and>
      m' = insertAddressInfo m (instanceCandidate project i ni)"
    unfolding instanceStep_Some by (simp split: list.splits option.splits)
  with Some that show ?thesis by blast
qed

lemma IP_addressCandidate [simp]: "IP (addressCandidate project a) = Address_Address a"
  by (simp add: addressCandidate_def)

lemma IP_instanceCandidate [simp]: "IP (instanceCandidate project i ni) = NetworkIP ni"
  by (simp add: instanceCandidate_def)

subsection \<open>Entries stay under their IP\<close>

lemma keyedByIP_addressScope:
  "addressScope project m entry = Inr m' \<Longrightarrow> keyedByIP m \<Longrightarrow> keyedByIP m'"
  unfolding addressScope_def
  by (auto split: option.splits elim!: forEach_invariant addressStep_Inr
      intro: keyedByIP_insert)

lemma keyedByIP_instanceScope:
  "instanceScope project m entry = Inr m' \<Longrightarrow> keyedByIP m \<Longrightarrow> keyedByIP m'"
  unfolding instanceScope_def
  by (auto split: option.splits elim!: forEach_invariant instanceStep_Inr
      intro: keyedByIP_insert)

lemma keyedByIP_projectStep:
  assumes "projectStep m p = Inr m'" and "keyedByIP m"
  shows "keyedByIP m'"
proof (cases p)
  case None
  with assms show ?thesis by simp
next
  case (Some r)
  from assms(1) Some obtain m1 where
    m1: "(case AddressList r of None \<Rightarrow> Inr m
          | Some al \<Rightarrow> forEach (addressScope (Resources_Project r)) (Address_Items al) m) = Inr m1"
    and m2: "(case InstanceList r of None \<Rightarrow> Inr m1
          | Some il \<Rightarrow> forEach (instanceScope (Resources_Project r)) (Instance_Items il) m1) = Inr m'"
    by (auto split: sum.splits)
  from m1 assms(2) have "keyedByIP m1"
    by (auto split: option.splits elim!: forEach_invariant intro: keyedByIP_addressScope)
  with m2 show ?thesis
    by (auto split: option.splits elim!: forEach_invariant intro: keyedByIP_instanceScope)
qed

lemma keyedByIP_flatten: "flatten ps = Inr m \<Longrightarrow> keyedByIP m"
  unfolding flatten_def
  by (erule forEach_invariant) (simp_all add: keyedByIP_def[of Map.empty] keyedByIP_projectStep)

subsection \<open>Entries only grow\<close>

lemma grows_forEach:
  assumes "forEach body xs m = Inr m'"
    and "\<And>s x s'. body s x = Inr s' \<Longrightarrow> grows s s'"
  shows "grows m m'"
proof (rule forEach_relates[where R = grows, OF assms(1)])
  show "\<And>s. grows s s" by (rule grows_refl)
  show "\<And>a b c. grows a b \<Longrightarrow> grows b c \<Longrightarrow> grows a c" by (rule grows_trans)
  show "\<And>s x s'. x \<in> set xs \<Longrightarrow> body s x = Inr s' \<Longrightarrow> grows s s'" by (rule assms(2))
qed

lemma grows_addressStep: "addressStep project m x = Inr m' \<Longrightarrow> grows m m'"
  by (erule addressStep_Inr) (simp add: grows_insert)

lemma grows_instanceStep: "instanceStep project m x = Inr m' \<Longrightarrow> grows m m'"
  by (erule instanceStep_Inr) (simp add: grows_insert)

lemma grows_addressScope:
  assumes "addressScope project m entry = Inr m'"
  shows "grows m m'"
proof (cases "Addresses (snd entry)")
  case None
  with assms show ?thesis by (simp add: addressScope_def grows_refl)
next
  case (Some as)
  with assms have "forEach (addressStep project) as m = Inr m'" by (simp add: addressScope_def)
  then show ?thesis by (rule grows_forEach) (rule grows_addressStep)
qed

lemma grows_instanceScope:
  assumes "instanceScope project m entry = Inr m'"
  shows "grows m m'"
proof (cases "Instances (snd entry)")
  case None
  with assms show ?thesis by (simp add: instanceScope_def grows_refl)
next
  case (Some insts)
  with assms have "forEach (instanceStep project) insts m = Inr m'" by (simp add: instanceScope_def)
  then show ?thesis by (rule grows_forEach) (rule grows_instanceStep)
qed

lemma projectStep_Inr:
  assumes "projectStep m p = Inr m'"
  obtains r m1 where "p = Some r"
    and "(case AddressList r of None \<Rightarrow> Inr m
          | Some al \<Rightarrow> forEach (addressScope (Resources_Project r)) (Address_Items al) m) = Inr m1"
    and "(case InstanceList r of None \<Rightarrow> Inr m1
          | Some il \<Rightarrow> forEach (instanceScope (Resources_Project r)) (Instance_Items il) m1) = Inr m'"
  using assms by (cases p) (auto split: sum.splits)

lemma grows_projectStep:
  assumes "projectStep m p = Inr m'"
  shows "grows m m'"
proof -
  from assms obtain r m1 where p: "p = Some r" and
    m1: "(case AddressList r of None \<Rightarrow> Inr m
          | Some al \<Rightarrow> forEach (addressScope (Resources_Project r)) (Address_Items al) m) = Inr m1"
    and m2: "(case InstanceList r of None \<Rightarrow> Inr m1
          | Some il \<Rightarrow> forEach (instanceScope (Resources_Project r)) (Instance_Items il) m1) = Inr m'"
    by (rule projectStep_Inr)
  have "grows m m1"
  proof (cases "AddressList r")
    case None
    with m1 show ?thesis by (simp add: grows_refl)
  next
    case (Some al)
    with m1 have "forEach (addressScope (Resources_Project r)) (Address_Items al) m = Inr m1"
      by simp
    then show ?thesis by (rule grows_forEach) (rule grows_addressScope)
  qed
  moreover have "grows m1 m'"
  proof (cases "InstanceList r")
    case None
    with m2 show ?thesis by (simp add: grows_refl)
  next
    case (Some il)
    with m2 have "forEach (instanceScope (Resources_Project r)) (Instance_Items il) m1 = Inr m'"
      by simp
    then show ?thesis by (rule grows_forEach) (rule grows_instanceScope)
  qed
  ultimately show ?thesis by (rule grows_trans)
qed

subsection \<open>The keys are the IPs of the input\<close>

lemma dom_addressStep:
  "addressStep project m x = Inr m' \<Longrightarrow> dom m' = dom m \<union> ipOfAddress x"
  by (erule addressStep_Inr) (simp add: dom_insertAddressInfo ipOfAddress_def)

lemma dom_instanceStep:
  "instanceStep project m x = Inr m' \<Longrightarrow> dom m' = dom m \<union> ipOfInstance x"
  by (erule instanceStep_Inr) (simp add: dom_insertAddressInfo ipOfInstance_def)

lemma dom_addressScope:
  assumes "addressScope project m entry = Inr m'"
  shows "dom m' = dom m \<union> ipsOfAddressScope entry"
proof (cases "Addresses (snd entry)")
  case None
  with assms show ?thesis by (simp add: addressScope_def ipsOfAddressScope_def)
next
  case (Some as)
  with assms have fe: "forEach (addressStep project) as m = Inr m'"
    by (simp add: addressScope_def)
  have "dom m' = dom m \<union> \<Union> (ipOfAddress ` set as)"
    by (rule forEach_dom[OF fe]) (rule dom_addressStep)
  with Some show ?thesis by (simp add: ipsOfAddressScope_def)
qed

lemma dom_instanceScope:
  assumes "instanceScope project m entry = Inr m'"
  shows "dom m' = dom m \<union> ipsOfInstanceScope entry"
proof (cases "Instances (snd entry)")
  case None
  with assms show ?thesis by (simp add: instanceScope_def ipsOfInstanceScope_def)
next
  case (Some insts)
  with assms have fe: "forEach (instanceStep project) insts m = Inr m'"
    by (simp add: instanceScope_def)
  have "dom m' = dom m \<union> \<Union> (ipOfInstance ` set insts)"
    by (rule forEach_dom[OF fe]) (rule dom_instanceStep)
  with Some show ?thesis by (simp add: ipsOfInstanceScope_def)
qed

lemma dom_projectStep:
  assumes "projectStep m p = Inr m'"
  shows "dom m' = dom m \<union> ipsOfProject p"
proof -
  from assms obtain r m1 where p: "p = Some r" and
    m1: "(case AddressList r of None \<Rightarrow> Inr m
          | Some al \<Rightarrow> forEach (addressScope (Resources_Project r)) (Address_Items al) m) = Inr m1"
    and m2: "(case InstanceList r of None \<Rightarrow> Inr m1
          | Some il \<Rightarrow> forEach (instanceScope (Resources_Project r)) (Instance_Items il) m1) = Inr m'"
    by (rule projectStep_Inr)
  have d1: "dom m1 = dom m \<union> ipsOfAddressList (AddressList r)"
  proof (cases "AddressList r")
    case None
    with m1 show ?thesis by (simp add: ipsOfAddressList_def)
  next
    case (Some al)
    with m1 have fe: "forEach (addressScope (Resources_Project r)) (Address_Items al) m = Inr m1"
      by simp
    have "dom m1 = dom m \<union> \<Union> (ipsOfAddressScope ` set (Address_Items al))"
      by (rule forEach_dom[OF fe]) (rule dom_addressScope)
    with Some show ?thesis by (simp add: ipsOfAddressList_def)
  qed
  have d2: "dom m' = dom m1 \<union> ipsOfInstanceList (InstanceList r)"
  proof (cases "InstanceList r")
    case None
    with m2 show ?thesis by (simp add: ipsOfInstanceList_def)
  next
    case (Some il)
    with m2 have fe: "forEach (instanceScope (Resources_Project r)) (Instance_Items il) m1 = Inr m'"
      by simp
    have "dom m' = dom m1 \<union> \<Union> (ipsOfInstanceScope ` set (Instance_Items il))"
      by (rule forEach_dom[OF fe]) (rule dom_instanceScope)
    with Some show ?thesis by (simp add: ipsOfInstanceList_def)
  qed
  from d1 d2 show ?thesis by (auto simp: p ipsOfProject_def)
qed

lemma dom_flatten:
  assumes "flatten ps = Inr m"
  shows "dom m = sourceIPs ps"
proof -
  from assms have fe: "forEach projectStep ps Map.empty = Inr m" by (simp add: flatten_def)
  have "dom m = dom (Map.empty :: string \<rightharpoonup> AddressInfo) \<union> \<Union> (ipsOfProject ` set ps)"
    by (rule forEach_dom[OF fe]) (rule dom_projectStep)
  then show ?thesis by (simp add: sourceIPs_def)
qed

subsection \<open>Where the merger panics\<close>

lemma forEach_avoids:
  assumes "\<And>x s. x \<in> set xs \<Longrightarrow> body s x \<noteq> Inl e"
  shows "forEach body xs s \<noteq> Inl e"
  using forEach_fails[of body xs s e] assms by blast

lemma addressStep_avoids:
  "addressIndexSafe x \<Longrightarrow> addressStep project m x \<noteq> Inl IndexOutOfRange"
  by (cases x) (simp_all only: addressStep_Some addressStep.simps(1) addressIndexSafe_def, simp_all)

lemma instanceStep_avoids:
  "instanceIndexSafe x \<Longrightarrow> instanceStep project m x \<noteq> Inl IndexOutOfRange"
  by (cases x)
    (simp_all only: instanceStep_Some instanceStep.simps(1) instanceIndexSafe_def,
      simp_all split: list.splits option.splits)

lemma addressScope_avoids:
  assumes "addressScopeIndexSafe entry"
  shows "addressScope project m entry \<noteq> Inl IndexOutOfRange"
proof (cases "Addresses (snd entry)")
  case None
  then show ?thesis by (simp add: addressScope_def)
next
  case (Some as)
  with assms have "\<And>x s. x \<in> set as \<Longrightarrow> addressStep project s x \<noteq> Inl IndexOutOfRange"
    by (simp add: addressScopeIndexSafe_def list_all_iff addressStep_avoids)
  then have "forEach (addressStep project) as m \<noteq> Inl IndexOutOfRange"
    by (rule forEach_avoids)
  with Some show ?thesis by (simp add: addressScope_def)
qed

lemma instanceScope_avoids:
  assumes "instanceScopeIndexSafe entry"
  shows "instanceScope project m entry \<noteq> Inl IndexOutOfRange"
proof (cases "Instances (snd entry)")
  case None
  then show ?thesis by (simp add: instanceScope_def)
next
  case (Some insts)
  with assms have "\<And>x s. x \<in> set insts \<Longrightarrow> instanceStep project s x \<noteq> Inl IndexOutOfRange"
    by (simp add: instanceScopeIndexSafe_def list_all_iff instanceStep_avoids)
  then have "forEach (instanceStep project) insts m \<noteq> Inl IndexOutOfRange"
    by (rule forEach_avoids)
  with Some show ?thesis by (simp add: instanceScope_def)
qed

lemma projectStep_avoids:
  assumes "projectIndexSafe p"
  shows "projectStep m p \<noteq> Inl IndexOutOfRange"
proof (cases p)
  case None
  then show ?thesis by simp
next
  case (Some r)
  let ?first = "case AddressList r of None \<Rightarrow> Inr m
    | Some al \<Rightarrow> forEach (addressScope (Resources_Project r)) (Address_Items al) m"
  have first: "?first \<noteq> Inl IndexOutOfRange"
  proof (cases "AddressList r")
    case None
    then show ?thesis by simp
  next
    case al: (Some al)
    with assms Some
    have "\<And>x s. x \<in> set (Address_Items al) \<Longrightarrow>
        addressScope (Resources_Project r) s x \<noteq> Inl IndexOutOfRange"
      by (simp add: projectIndexSafe_def list_all_iff addressScope_avoids)
    then have "forEach (addressScope (Resources_Project r)) (Address_Items al) m
        \<noteq> Inl IndexOutOfRange"
      by (rule forEach_avoids)
    with al show ?thesis by simp
  qed
  have second: "(case InstanceList r of None \<Rightarrow> Inr m1
      | Some il \<Rightarrow> forEach (instanceScope (Resources_Project r)) (Instance_Items il) m1)
      \<noteq> Inl IndexOutOfRange" for m1
  proof (cases "InstanceList r")
    case None
    then show ?thesis by simp
  next
    case il: (Some il)
    with assms Some
    have "\<And>x s. x \<in> set (Instance_Items il) \<Longrightarrow>
        instanceScope (Resources_Project r) s x \<noteq> Inl IndexOutOfRange"
      by (simp add: projectIndexSafe_def list_all_iff instanceScope_avoids)
    then have "forEach (instanceScope (Resources_Project r)) (Instance_Items il) m1
        \<noteq> Inl IndexOutOfRange"
      by (rule forEach_avoids)
    with il show ?thesis by simp
  qed
  show ?thesis
  proof (cases ?first)
    case (Inl e)
    with first have "e \<noteq> IndexOutOfRange" by auto
    with Inl Some show ?thesis by simp
  next
    case (Inr m1)
    with second[of m1] Some show ?thesis by simp
  qed
qed

lemma flatten_avoids:
  assumes "indexSafe ps"
  shows "flatten ps \<noteq> Inl IndexOutOfRange"
proof -
  from assms have "\<And>x s. x \<in> set ps \<Longrightarrow> projectStep s x \<noteq> Inl IndexOutOfRange"
    by (simp add: indexSafe_def list_all_iff projectStep_avoids)
  then show ?thesis unfolding flatten_def by (rule forEach_avoids)
qed

lemma addressStep_succeeds:
  "addressIndexSafe x \<Longrightarrow> x \<noteq> None \<Longrightarrow> \<exists>m'. addressStep project m x = Inr m'"
  by (cases x) (simp_all only: addressStep_Some addressIndexSafe_def, simp_all)

lemma instanceStep_succeeds:
  "instanceIndexSafe x \<Longrightarrow> instanceNonNil x \<Longrightarrow> \<exists>m'. instanceStep project m x = Inr m'"
  by (cases x)
    (simp_all only: instanceStep_Some instanceIndexSafe_def instanceNonNil_def,
      simp_all split: list.splits option.splits)

lemma addressScope_succeeds:
  assumes "addressScopeIndexSafe entry" and "addressScopeNonNil entry"
  shows "\<exists>m'. addressScope project m entry = Inr m'"
proof (cases "Addresses (snd entry)")
  case None
  then show ?thesis by (simp add: addressScope_def)
next
  case (Some as)
  with assms have "\<And>x s. x \<in> set as \<Longrightarrow> \<exists>s'. addressStep project s x = Inr s'"
    by (simp add: addressScopeIndexSafe_def addressScopeNonNil_def list_all_iff
        addressStep_succeeds)
  then have "\<exists>m'. forEach (addressStep project) as m = Inr m'"
    by (rule forEach_succeeds)
  with Some show ?thesis by (simp add: addressScope_def)
qed

lemma instanceScope_succeeds:
  assumes "instanceScopeIndexSafe entry" and "instanceScopeNonNil entry"
  shows "\<exists>m'. instanceScope project m entry = Inr m'"
proof (cases "Instances (snd entry)")
  case None
  then show ?thesis by (simp add: instanceScope_def)
next
  case (Some insts)
  with assms have "\<And>x s. x \<in> set insts \<Longrightarrow> \<exists>s'. instanceStep project s x = Inr s'"
    by (simp add: instanceScopeIndexSafe_def instanceScopeNonNil_def list_all_iff
        instanceStep_succeeds)
  then have "\<exists>m'. forEach (instanceStep project) insts m = Inr m'"
    by (rule forEach_succeeds)
  with Some show ?thesis by (simp add: instanceScope_def)
qed

lemma projectStep_succeeds:
  assumes "projectIndexSafe p" and "projectNonNil p"
  shows "\<exists>m'. projectStep m p = Inr m'"
proof (cases p)
  case None
  with assms show ?thesis by (simp add: projectNonNil_def)
next
  case (Some r)
  have "\<exists>m1. (case AddressList r of None \<Rightarrow> Inr m
      | Some al \<Rightarrow> forEach (addressScope (Resources_Project r)) (Address_Items al) m) = Inr m1"
  proof (cases "AddressList r")
    case None
    then show ?thesis by simp
  next
    case al: (Some al)
    with assms Some
    have "\<And>x s. x \<in> set (Address_Items al) \<Longrightarrow>
        \<exists>s'. addressScope (Resources_Project r) s x = Inr s'"
      by (simp add: projectIndexSafe_def projectNonNil_def list_all_iff addressScope_succeeds)
    then have "\<exists>m1. forEach (addressScope (Resources_Project r)) (Address_Items al) m = Inr m1"
      by (rule forEach_succeeds)
    with al show ?thesis by simp
  qed
  then obtain m1 where m1: "(case AddressList r of None \<Rightarrow> Inr m
      | Some al \<Rightarrow> forEach (addressScope (Resources_Project r)) (Address_Items al) m) = Inr m1"
    by blast
  have "\<exists>m'. (case InstanceList r of None \<Rightarrow> Inr m1
      | Some il \<Rightarrow> forEach (instanceScope (Resources_Project r)) (Instance_Items il) m1) = Inr m'"
  proof (cases "InstanceList r")
    case None
    then show ?thesis by simp
  next
    case il: (Some il)
    with assms Some
    have "\<And>x s. x \<in> set (Instance_Items il) \<Longrightarrow>
        \<exists>s'. instanceScope (Resources_Project r) s x = Inr s'"
      by (simp add: projectIndexSafe_def projectNonNil_def list_all_iff instanceScope_succeeds)
    then have "\<exists>m'. forEach (instanceScope (Resources_Project r)) (Instance_Items il) m1 = Inr m'"
      by (rule forEach_succeeds)
    with il show ?thesis by simp
  qed
  with m1 Some show ?thesis by simp
qed

lemma flatten_succeeds:
  assumes "indexSafe ps" and "nonNil ps"
  shows "\<exists>m. flatten ps = Inr m"
proof -
  from assms have "\<And>x s. x \<in> set ps \<Longrightarrow> \<exists>s'. projectStep s x = Inr s'"
    by (simp add: indexSafe_def nonNil_def list_all_iff projectStep_succeeds)
  then show ?thesis unfolding flatten_def by (rule forEach_succeeds)
qed

subsection \<open>Every candidate is taken in\<close>

lemma flatten_covers_address:
  assumes fl: "flatten ps = Inr m" and p: "Some p \<in> set ps"
    and al: "AddressList p = Some al" and a: "a \<in> addressesOf al"
  shows "\<exists>r. m (Address_Address a) = Some r \<and>
    covers r (addressCandidate (Resources_Project p) a)"
proof -
  let ?c = "addressCandidate (Resources_Project p) a"
  let ?Q = "\<lambda>s :: string \<rightharpoonup> AddressInfo. \<exists>r. s (Address_Address a) = Some r \<and> covers r ?c"
  have mono: "\<And>s s'. ?Q s \<Longrightarrow> grows s s' \<Longrightarrow> ?Q s'"
    by (rule covers_grows)
  from a obtain entry as where entry: "entry \<in> set (Address_Items al)"
    and as: "Addresses (snd entry) = Some as" and mem: "Some a \<in> set as"
    unfolding addressesOf_def by blast
  have step: "?Q s'" if "addressStep (Resources_Project p) s (Some a) = Inr s'" for s s'
  proof -
    from that have "s' = insertAddressInfo s ?c"
      unfolding addressStep_Some by (simp split: if_splits)
    then show ?thesis using covers_insert[of s ?c] by simp
  qed
  have scope: "?Q s'" if "addressScope (Resources_Project p) s entry = Inr s'" for s s'
  proof -
    from that as have fe: "forEach (addressStep (Resources_Project p)) as s = Inr s'"
      by (simp add: addressScope_def)
    show ?thesis
      by (rule forEach_reaches[where R = grows and Q = ?Q, OF fe mem])
        (auto intro: grows_addressStep step mono)
  qed
  have project: "?Q s'" if "projectStep s (Some p) = Inr s'" for s s'
  proof -
    from that al obtain m1 where
      m1: "forEach (addressScope (Resources_Project p)) (Address_Items al) s = Inr m1"
      and m2: "(case InstanceList p of None \<Rightarrow> Inr m1
          | Some il \<Rightarrow> forEach (instanceScope (Resources_Project p)) (Instance_Items il) m1) = Inr s'"
      by (auto split: sum.splits)
    have q1: "?Q m1"
      by (rule forEach_reaches[where R = grows and Q = ?Q, OF m1 entry])
        (auto intro: grows_addressScope scope mono)
    have "grows m1 s'"
    proof (cases "InstanceList p")
      case None
      with m2 show ?thesis by (simp add: grows_refl)
    next
      case (Some il)
      with m2 have "forEach (instanceScope (Resources_Project p)) (Instance_Items il) m1 = Inr s'"
        by simp
      then show ?thesis by (rule grows_forEach) (rule grows_instanceScope)
    qed
    with q1 show ?thesis by (rule mono)
  qed
  from fl have fe: "forEach projectStep ps Map.empty = Inr m" by (simp add: flatten_def)
  show ?thesis
    by (rule forEach_reaches[where R = grows and Q = ?Q, OF fe p])
      (auto intro: grows_projectStep project mono)
qed

section \<open>The claims about the merger\<close>

lemma getName_sub1: "last (Split ''projects/H/regions/r1/subnetworks/sub1'') = ''sub1''"
  by (simp add: last_Split)

lemma flatten_scenario:
  "flatten [Some svc_a, Some svc_b] =
     Inr [''10.0.0.5'' \<mapsto>
       \<lparr>Project = ''svc-a'', IP = ''10.0.0.5'', Status = ''RESERVED'', Subnet = ''sub1'',
        User = ''vm1''\<rparr>]"
  by (simp add: flatten_def svc_a_def svc_a_addresses_def svc_a_address_def svc_b_def addressScope_def instanceScope_def
      getName_Inr getName_sub1 insertAddressInfo_def Let_def)

text \<open>
  C1, as the code has it: of two candidates for one IP, inserted one after the other
  into a map that has no entry for it, the merged record has the project and the IP of
  the first, and in status, subnet and user the first candidate's value where that is
  not empty and the second candidate's where it is. The project is never filled from
  the second candidate.
\<close>

theorem insertAddressInfo_first_writer:
  assumes "m (IP c1) = None" and "IP c2 = IP c1"
  shows "insertAddressInfo (insertAddressInfo m c1) c2 =
    m(IP c1 \<mapsto>
      \<lparr>Project = Project c1, IP = IP c1,
       Status = (if Status c1 = [] then Status c2 else Status c1),
       Subnet = (if Subnet c1 = [] then Subnet c2 else Subnet c1),
       User = (if User c1 = [] then User c2 else User c1)\<rparr>)"
proof -
  have one: "insertAddressInfo m c1 = m(IP c1 \<mapsto> c1)"
    using assms(1) by (rule insert_new)
  have "(m(IP c1 \<mapsto> c1)) (IP c2) = Some c1" using assms(2) by simp
  then have "insertAddressInfo (m(IP c1 \<mapsto> c1)) c2 = (m(IP c1 \<mapsto> c1))(IP c2 \<mapsto>
     c1\<lparr>Status := (if Status c1 = [] then Status c2 else Status c1),
       Subnet := (if Subnet c1 = [] then Subnet c2 else Subnet c1),
       User := (if User c1 = [] then User c2 else User c1)\<rparr>)"
    by (rule insert_existing)
  then show ?thesis
    unfolding one using assms(2) by (cases c1) simp
qed

theorem insertAddressInfo_first_writer_witness:
  "insertAddressInfo
     (insertAddressInfo Map.empty
        \<lparr>Project = ''svc-a'', IP = ''10.0.0.5'', Status = ''RESERVED'', Subnet = [], User = []\<rparr>)
     \<lparr>Project = ''svc-b'', IP = ''10.0.0.5'', Status = [], Subnet = ''sub1'', User = ''vm1''\<rparr> =
   [''10.0.0.5'' \<mapsto>
     \<lparr>Project = ''svc-a'', IP = ''10.0.0.5'', Status = ''RESERVED'', Subnet = ''sub1'',
      User = ''vm1''\<rparr>]"
  using insertAddressInfo_first_writer[of Map.empty
      "\<lparr>Project = ''svc-a'', IP = ''10.0.0.5'', Status = ''RESERVED'', Subnet = [], User = []\<rparr>"
      "\<lparr>Project = ''svc-b'', IP = ''10.0.0.5'', Status = [], Subnet = ''sub1'', User = ''vm1''\<rparr>"]
  by simp

text \<open>
  C1 as stated fails on the project: a first candidate with an empty project keeps it
  empty, although the second candidate has one.
\<close>

theorem insertAddressInfo_project_counterexample:
  "insertAddressInfo
     (insertAddressInfo Map.empty
        \<lparr>Project = [], IP = ''10.0.0.5'', Status = [], Subnet = [], User = []\<rparr>)
     \<lparr>Project = ''svc-b'', IP = ''10.0.0.5'', Status = ''IN_USE'', Subnet = ''sub1'',
      User = ''vm1''\<rparr> ''10.0.0.5'' =
   Some \<lparr>Project = [], IP = ''10.0.0.5'', Status = ''IN_USE'', Subnet = ''sub1'', User = ''vm1''\<rparr>"
  by (simp add: insertAddressInfo_def Let_def)

text \<open>
  C2: when \<^verbatim>\<open>flatten\<close> returns, the keys of its map are exactly the IPs that the
  address and instance records of the input name, every record sits under its own IP,
  and so no two entries of the map have the same IP.
\<close>

theorem flatten_one_record_per_IP:
  assumes "flatten ps = Inr m"
  shows "dom m = sourceIPs ps \<and> keyedByIP m \<and>
    (\<forall>k1 k2 r1 r2. m k1 = Some r1 \<and> m k2 = Some r2 \<and> IP r1 = IP r2 \<longrightarrow> k1 = k2)"
proof -
  have k: "keyedByIP m" using assms by (rule keyedByIP_flatten)
  then have "\<forall>k1 k2 r1 r2. m k1 = Some r1 \<and> m k2 = Some r2 \<and> IP r1 = IP r2 \<longrightarrow> k1 = k2"
    unfolding keyedByIP_def by metis
  with k dom_flatten[OF assms] show ?thesis by simp
qed

theorem flatten_one_record_per_IP_witness:
  "flatten [Some svc_a, Some svc_b] =
     Inr [''10.0.0.5'' \<mapsto>
       \<lparr>Project = ''svc-a'', IP = ''10.0.0.5'', Status = ''RESERVED'', Subnet = ''sub1'',
        User = ''vm1''\<rparr>] \<and>
   sourceIPs [Some svc_a, Some svc_b] = {''10.0.0.5''} \<and>
   keyedByIP [''10.0.0.5'' \<mapsto>
       \<lparr>Project = ''svc-a'', IP = ''10.0.0.5'', Status = ''RESERVED'', Subnet = ''sub1'',
        User = ''vm1''\<rparr>]"
  using flatten_one_record_per_IP[OF flatten_scenario] flatten_scenario by simp

text \<open>
  C3: the end-to-end scenario. From svc-a and then svc-b the merger returns the single
  record of 10.0.0.5 with project svc-a, status RESERVED, subnet sub1 and user vm1.
\<close>

theorem flatten_end_to_end:
  "flatten [Some svc_a, Some svc_b] =
     Inr [''10.0.0.5'' \<mapsto>
       \<lparr>Project = ''svc-a'', IP = ''10.0.0.5'', Status = ''RESERVED'', Subnet = ''sub1'',
        User = ''vm1''\<rparr>]"
  by (simp add: flatten_def svc_a_def svc_a_addresses_def svc_a_address_def svc_b_def
      addressScope_def instanceScope_def getName_Inr getName_sub1 insertAddressInfo_def Let_def)

text \<open>
  C9: a candidate that carries only its IP leaves a fully populated record of that IP,
  and the whole map, as they were.
\<close>

theorem insertAddressInfo_idempotent_partial:
  assumes "m (IP c) = Some e" and "fullyPopulated e" and "onlyIP c"
  shows "insertAddressInfo m c = m"
proof -
  from assms(2) have "e\<lparr>Status := (if Status e = [] then Status c else Status e),
       Subnet := (if Subnet e = [] then Subnet c else Subnet e),
       User := (if User e = [] then User c else User e)\<rparr> = e"
    by (simp add: fullyPopulated_def)
  moreover have "insertAddressInfo m c = m(IP c \<mapsto>
     e\<lparr>Status := (if Status e = [] then Status c else Status e),
       Subnet := (if Subnet e = [] then Subnet c else Subnet e),
       User := (if User e = [] then User c else User e)\<rparr>)"
    using assms(1) by (rule insert_existing)
  ultimately show ?thesis using assms(1) by (simp add: fun_upd_idem)
qed

theorem insertAddressInfo_idempotent_partial_witness:
  "insertAddressInfo
     [''10.0.0.5'' \<mapsto>
       \<lparr>Project = ''svc-a'', IP = ''10.0.0.5'', Status = ''RESERVED'', Subnet = ''sub1'',
        User = ''vm1''\<rparr>]
     \<lparr>Project = [], IP = ''10.0.0.5'', Status = [], Subnet = [], User = []\<rparr> =
   [''10.0.0.5'' \<mapsto>
       \<lparr>Project = ''svc-a'', IP = ''10.0.0.5'', Status = ''RESERVED'', Subnet = ''sub1'',
        User = ''vm1''\<rparr>]"
  using insertAddressInfo_idempotent_partial[of
      "[''10.0.0.5'' \<mapsto>
       \<lparr>Project = ''svc-a'', IP = ''10.0.0.5'', Status = ''RESERVED'', Subnet = ''sub1'',
        User = ''vm1''\<rparr>]"
      "\<lparr>Project = [], IP = ''10.0.0.5'', Status = [], Subnet = [], User = []\<rparr>"
      "\<lparr>Project = ''svc-a'', IP = ''10.0.0.5'', Status = ''RESERVED'', Subnet = ''sub1'',
        User = ''vm1''\<rparr>"]
  by (simp add: fullyPopulated_def onlyIP_def)

text \<open>
  C10: \<^verbatim>\<open>flatten\<close> panics with an index out of range on an instance that has no
  network interface and on an address whose users list is present and empty. On an
  input where every instance has a network interface and every present users list has
  an element it never does, and if no pointer of the input is nil either, it returns a
  map.
\<close>

theorem flatten_index_safety:
  "flatten [Some \<lparr>Resources_Project = ''p'', AddressList = None,
      InstanceList = Some \<lparr>Instance_Items =
        [(''zones/z1'', \<lparr>Instances = Some [Some \<lparr>Name = ''vm1'', NetworkInterfaces = []\<rparr>]\<rparr>)]\<rparr>\<rparr>]
     = Inl IndexOutOfRange \<and>
   flatten [Some \<lparr>Resources_Project = ''p'',
      AddressList = Some \<lparr>Address_Items =
        [(''regions/r1'', \<lparr>Addresses = Some [Some
           \<lparr>Address_Address = ''10.0.0.5'', Address_Status = ''RESERVED'',
            Address_Subnetwork = ''sub1'', Address_Users = Some []\<rparr>]\<rparr>)]\<rparr>,
      InstanceList = None\<rparr>]
     = Inl IndexOutOfRange \<and>
   (indexSafe ps \<longrightarrow>
      flatten ps \<noteq> Inl IndexOutOfRange \<and> (nonNil ps \<longrightarrow> (\<exists>m. flatten ps = Inr m)))"
proof (intro conjI impI)
  show "flatten [Some \<lparr>Resources_Project = ''p'', AddressList = None,
      InstanceList = Some \<lparr>Instance_Items =
        [(''zones/z1'', \<lparr>Instances = Some [Some \<lparr>Name = ''vm1'', NetworkInterfaces = []\<rparr>]\<rparr>)]\<rparr>\<rparr>]
     = Inl IndexOutOfRange"
    by (simp add: flatten_def instanceScope_def)
  show "flatten [Some \<lparr>Resources_Project = ''p'',
      AddressList = Some \<lparr>Address_Items =
        [(''regions/r1'', \<lparr>Addresses = Some [Some
           \<lparr>Address_Address = ''10.0.0.5'', Address_Status = ''RESERVED'',
            Address_Subnetwork = ''sub1'', Address_Users = Some []\<rparr>]\<rparr>)]\<rparr>,
      InstanceList = None\<rparr>]
     = Inl IndexOutOfRange"
    by (simp add: flatten_def addressScope_def)
  show "flatten ps \<noteq> Inl IndexOutOfRange" if "indexSafe ps"
    using that by (rule flatten_avoids)
  show "\<exists>m. flatten ps = Inr m" if "indexSafe ps" and "nonNil ps"
    using that by (rule flatten_succeeds)
qed

theorem flatten_index_safety_witness:
  "indexSafe [Some svc_a, Some svc_b] \<and> nonNil [Some svc_a, Some svc_b] \<and>
   flatten [Some svc_a, Some svc_b] \<noteq> Inl IndexOutOfRange \<and>
   (\<exists>m. flatten [Some svc_a, Some svc_b] = Inr m)"
proof -
  have s: "indexSafe [Some svc_a, Some svc_b]"
    by (simp add: indexSafe_def projectIndexSafe_def addressScopeIndexSafe_def
        instanceScopeIndexSafe_def addressIndexSafe_def instanceIndexSafe_def svc_a_def svc_a_addresses_def svc_a_address_def svc_b_def)
  have n: "nonNil [Some svc_a, Some svc_b]"
    by (simp add: nonNil_def projectNonNil_def addressScopeNonNil_def
        instanceScopeNonNil_def instanceNonNil_def svc_a_def svc_a_addresses_def svc_a_address_def svc_b_def)
  from s n flatten_index_safety[of "[Some svc_a, Some svc_b]"] show ?thesis by blast
qed

section \<open>Comparing and sorting\<close>

lemma Compare_flip: "Compare b a = - Compare a b"
  by (induction a b rule: Compare.induct) auto

lemma Compare_trans:
  "Compare a b \<le> 0 \<Longrightarrow> Compare b c \<le> 0 \<Longrightarrow> Compare a c \<le> 0"
proof (induction a arbitrary: b c)
  case Nil
  then show ?case by (cases c) simp_all
next
  case (Cons x xs)
  from Cons.prems(1) obtain y ys where b: "b = y # ys" by (cases b) auto
  from Cons.prems(2) b obtain z zs where c: "c = z # zs" by (cases c) auto
  from Cons.prems b c have xy: "x \<le> y" and yz: "y \<le> z"
    by (auto split: if_splits)
  show ?case
  proof (cases "x < z")
    case True
    with c show ?thesis by simp
  next
    case False
    with xy yz have "x = y" "y = z" by auto
    with Cons.prems b c Cons.IH[of ys zs] show ?thesis by simp
  qed
qed

lemma set_sink: "set (sink lessFn x ys) = insert x (set ys)"
  by (induction ys) auto

lemma mset_sink: "mset (sink lessFn x ys) = add_mset x (mset ys)"
  by (induction ys) auto

lemma sorted_sink:
  assumes trans: "\<And>x y z. le x y \<Longrightarrow> le y z \<Longrightarrow> le x z"
    and total: "\<And>x y. le x y \<or> le y x"
    and "sorted_wrt (\<lambda>u v. le v u) ys"
  shows "sorted_wrt (\<lambda>u v. le v u) (sink (\<lambda>a b. \<not> le b a) x ys)"
  using assms(3)
proof (induction ys)
  case Nil
  then show ?case by simp
next
  case (Cons y ys)
  show ?case
  proof (cases "le y x")
    case True
    then have "\<forall>z\<in>set ys. le z x" using Cons.prems trans by auto
    with True Cons.prems show ?thesis by simp
  next
    case False
    then have "le x y" using total by blast
    with False Cons show ?thesis by (simp add: set_sink)
  qed
qed

lemma sorted_foldl_sink:
  assumes trans: "\<And>x y z. le x y \<Longrightarrow> le y z \<Longrightarrow> le x z"
    and total: "\<And>x y. le x y \<or> le y x"
  shows "sorted_wrt (\<lambda>u v. le v u) acc \<Longrightarrow>
    sorted_wrt (\<lambda>u v. le v u) (foldl (\<lambda>sorted x. sink (\<lambda>a b. \<not> le b a) x sorted) acc xs)"
proof (induction xs arbitrary: acc)
  case Nil
  then show ?case by simp
next
  case (Cons x xs)
  have "sorted_wrt (\<lambda>u v. le v u) (sink (\<lambda>a b. \<not> le b a) x acc)"
    by (rule sorted_sink[of le, OF trans total Cons.prems])
  then show ?case using Cons.IH by simp
qed

lemma sorted_sortSlice:
  assumes trans: "\<And>x y z. le x y \<Longrightarrow> le y z \<Longrightarrow> le x z"
    and total: "\<And>x y. le x y \<or> le y x"
  shows "sorted_wrt le (sortSlice (\<lambda>a b. \<not> le b a) xs)"
proof -
  have "sorted_wrt (\<lambda>u v. le v u) (foldl (\<lambda>sorted x. sink (\<lambda>a b. \<not> le b a) x sorted) [] xs)"
    by (rule sorted_foldl_sink[of le, OF trans total]) simp_all
  then show ?thesis by (simp add: sortSlice_def sorted_wrt_rev)
qed

lemma mset_foldl_sink:
  "mset (foldl (\<lambda>sorted x. sink lessFn x sorted) acc xs) = mset acc + mset xs"
  by (induction xs arbitrary: acc) (simp_all add: mset_sink)

lemma mset_sortSlice: "mset (sortSlice lessFn xs) = mset xs"
  by (simp add: sortSlice_def mset_foldl_sink)

lemma ipLess_conv:
  "ipLess parseIP = (\<lambda>a b. \<not> Compare (parseIP (IP b)) (parseIP (IP a)) \<le> 0)"
proof (intro ext)
  fix a b
  show "ipLess parseIP a b = (\<not> Compare (parseIP (IP b)) (parseIP (IP a)) \<le> 0)"
    unfolding ipLess_def using Compare_flip[of "parseIP (IP b)" "parseIP (IP a)"] by linarith
qed

lemma sorted_sortSlice_ipLess:
  "sorted_wrt (\<lambda>a b. Compare (parseIP (IP a)) (parseIP (IP b)) \<le> 0)
     (sortSlice (ipLess parseIP) l)"
  unfolding ipLess_conv
proof (rule sorted_sortSlice)
  show "Compare (parseIP (IP x)) (parseIP (IP z)) \<le> 0"
    if "Compare (parseIP (IP x)) (parseIP (IP y)) \<le> 0"
      and "Compare (parseIP (IP y)) (parseIP (IP z)) \<le> 0" for x y z
    using that by (rule Compare_trans)
  show "Compare (parseIP (IP x)) (parseIP (IP y)) \<le> 0 \<or>
      Compare (parseIP (IP y)) (parseIP (IP x)) \<le> 0" for x y
    using Compare_flip[of "parseIP (IP y)" "parseIP (IP x)"] by linarith
qed

lemma sorted_tableData:
  "sorted_wrt (\<lambda>r1 r2. Compare (parseIP (hd r1)) (parseIP (hd r2)) \<le> 0) (tableData parseIP l)"
  using sorted_sortSlice_ipLess[of parseIP l] by (simp add: tableData_def sorted_wrt_map)

lemma mset_tableData:
  "mset (tableData parseIP l) =
     mset (map (\<lambda>addressInfo. [IP addressInfo, Project addressInfo, Status addressInfo, User addressInfo]) l)"
  unfolding tableData_def mset_map mset_sortSlice ..

lemma four: "(4::nat) = Suc (Suc (Suc (Suc 0)))"
  by simp

lemma ParseIP_10_0_0_10: "ParseIP parseIPv6 ''10.0.0.10'' = v4InV6Prefix @ [10, 0, 0, 10]"
  unfolding ParseIP_def parseIPv4_def four by (simp add: dtoi_def)

lemma ParseIP_10_0_0_2: "ParseIP parseIPv6 ''10.0.0.2'' = v4InV6Prefix @ [10, 0, 0, 2]"
  unfolding ParseIP_def parseIPv4_def four by (simp add: dtoi_def)

lemma ParseIP_10_0_0_9: "ParseIP parseIPv6 ''10.0.0.9'' = v4InV6Prefix @ [10, 0, 0, 9]"
  unfolding ParseIP_def parseIPv4_def four by (simp add: dtoi_def)

lemma tableData_example:
  "map hd (tableData (ParseIP parseIPv6)
     [\<lparr>Project = ''svc-a'', IP = ''10.0.0.10'', Status = ''RESERVED'', Subnet = ''sub1'', User = []\<rparr>,
      \<lparr>Project = ''svc-a'', IP = ''10.0.0.2'', Status = ''IN_USE'', Subnet = ''sub1'', User = ''vm1''\<rparr>,
      \<lparr>Project = ''svc-b'', IP = ''10.0.0.9'', Status = [], Subnet = ''sub1'', User = ''vm2''\<rparr>]) =
   [''10.0.0.2'', ''10.0.0.9'', ''10.0.0.10'']"
  by (simp add: tableData_def sortSlice_def ipLess_def ParseIP_10_0_0_10 ParseIP_10_0_0_2
      ParseIP_10_0_0_9 v4InV6Prefix_def)

text \<open>
  C4: the rows that the reporter hands to the table are the rows of the records it was
  given, in ascending order of the bytes that \<^verbatim>\<open>net.ParseIP\<close> returns for their IP,
  whatever that function is; when the file is created and its heading written, these
  rows are what is handed to the renderer. The records of 10.0.0.10, 10.0.0.2 and 10.0.0.9 are rendered
  in the order 10.0.0.2, 10.0.0.9, 10.0.0.10.
\<close>

theorem writeToFile_sorted_by_IP:
  "sorted_wrt (\<lambda>r1 r2. Compare (parseIP (hd r1)) (parseIP (hd r2)) \<le> 0) (tableData parseIP l) \<and>
   mset (tableData parseIP l) =
     mset (map (\<lambda>addressInfo. [IP addressInfo, Project addressInfo, Status addressInfo, User addressInfo]) l) \<and>
   (CreateError w (subnet @ ''.md'') = None \<and> WriteStringError w (subnet @ ''.md'') = None \<longrightarrow>
      writeToFile w subnet l sofar =
        (Done (),
         sofar @ [Create (subnet @ ''.md''),
           WriteString (subnet @ ''.md'') (''# Reserved IPs for '' @ subnet @ [CHR 0x0A]),
           Render (subnet @ ''.md'') (tableData (netParseIP w) l)] @
         dropped (RenderError w (subnet @ ''.md'')) (subnet @ ''.md'') @
         [Close (subnet @ ''.md'')] @
         dropped (CloseError w (subnet @ ''.md'')) (subnet @ ''.md''))) \<and>
   map hd (tableData (ParseIP parseIPv6)
     [\<lparr>Project = ''svc-a'', IP = ''10.0.0.10'', Status = ''RESERVED'', Subnet = ''sub1'', User = []\<rparr>,
      \<lparr>Project = ''svc-a'', IP = ''10.0.0.2'', Status = ''IN_USE'', Subnet = ''sub1'', User = ''vm1''\<rparr>,
      \<lparr>Project = ''svc-b'', IP = ''10.0.0.9'', Status = [], Subnet = ''sub1'', User = ''vm2''\<rparr>]) =
   [''10.0.0.2'', ''10.0.0.9'', ''10.0.0.10'']"
  using sorted_tableData[of parseIP l] mset_tableData[of parseIP l] tableData_example[of parseIPv6]
  by (simp add: writeToFile_def Let_def)

theorem writeToFile_sorted_by_IP_witness:
  "CreateError scenarioWorld (''sub1'' @ ''.md'') = None \<and>
   WriteStringError scenarioWorld (''sub1'' @ ''.md'') = None \<and>
   writeToFile scenarioWorld ''sub1''
     [\<lparr>Project = ''svc-a'', IP = ''10.0.0.10'', Status = ''RESERVED'', Subnet = ''sub1'', User = []\<rparr>,
      \<lparr>Project = ''svc-a'', IP = ''10.0.0.2'', Status = ''IN_USE'', Subnet = ''sub1'', User = ''vm1''\<rparr>,
      \<lparr>Project = ''svc-b'', IP = ''10.0.0.9'', Status = [], Subnet = ''sub1'', User = ''vm2''\<rparr>] [] =
     (Done (),
      [Create ''sub1.md'', WriteString ''sub1.md'' (''# Reserved IPs for sub1'' @ [CHR 0x0A]),
       Render ''sub1.md'' (tableData (ParseIP (\<lambda>s. []))
         [\<lparr>Project = ''svc-a'', IP = ''10.0.0.10'', Status = ''RESERVED'', Subnet = ''sub1'', User = []\<rparr>,
          \<lparr>Project = ''svc-a'', IP = ''10.0.0.2'', Status = ''IN_USE'', Subnet = ''sub1'', User = ''vm1''\<rparr>,
          \<lparr>Project = ''svc-b'', IP = ''10.0.0.9'', Status = [], Subnet = ''sub1'', User = ''vm2''\<rparr>]),
       Close ''sub1.md'']) \<and>
   map hd (tableData (ParseIP (\<lambda>s. []))
     [\<lparr>Project = ''svc-a'', IP = ''10.0.0.10'', Status = ''RESERVED'', Subnet = ''sub1'', User = []\<rparr>,
      \<lparr>Project = ''svc-a'', IP = ''10.0.0.2'', Status = ''IN_USE'', Subnet = ''sub1'', User = ''vm1''\<rparr>,
      \<lparr>Project = ''svc-b'', IP = ''10.0.0.9'', Status = [], Subnet = ''sub1'', User = ''vm2''\<rparr>]) =
   [''10.0.0.2'', ''10.0.0.9'', ''10.0.0.10'']"
  using writeToFile_sorted_by_IP[of "ParseIP (\<lambda>s. [])"
      "[\<lparr>Project = ''svc-a'', IP = ''10.0.0.10'', Status = ''RESERVED'', Subnet = ''sub1'', User = []\<rparr>,
        \<lparr>Project = ''svc-a'', IP = ''10.0.0.2'', Status = ''IN_USE'', Subnet = ''sub1'', User = ''vm1''\<rparr>,
        \<lparr>Project = ''svc-b'', IP = ''10.0.0.9'', Status = [], Subnet = ''sub1'', User = ''vm2''\<rparr>]"
      scenarioWorld "''sub1''" "[]" "\<lambda>s. []"]
  by (simp add: scenarioWorld_def dropped_def)

section \<open>Grouping by subnet\<close>

lemma fold_group_keys:
  "fold (\<lambda>k g. case m k of None \<Rightarrow> g | Some addressInfo \<Rightarrow> appendBySubnet g addressInfo) keys g0 =
   fold (\<lambda>r g. appendBySubnet g r) (List.map_filter m keys) g0"
  by (induction keys arbitrary: g0) (simp_all add: map_filter_simps split: option.splits)

lemma fold_appendBySubnet:
  "fold (\<lambda>r g. appendBySubnet g r) recs g0 s =
     (if filter (\<lambda>r. Subnet r = s) recs = [] then g0 s
      else Some ((case g0 s of None \<Rightarrow> [] | Some l \<Rightarrow> l) @ filter (\<lambda>r. Subnet r = s) recs))"
proof (induction recs arbitrary: g0)
  case Nil
  then show ?case by simp
next
  case (Cons r recs)
  show ?case
    unfolding fold_Cons comp_apply Cons.IH
    by (simp add: appendBySubnet_def Let_def)
qed

lemma groupOf_groupBySubnet:
  "groupOf (groupBySubnet keys m) s = filter (\<lambda>r. Subnet r = s) (List.map_filter m keys)"
  by (simp add: groupOf_def groupBySubnet_def fold_group_keys fold_appendBySubnet)

lemma groupBySubnet_Some:
  "groupBySubnet keys m s = Some l \<Longrightarrow> l = groupOf (groupBySubnet keys m) s \<and> l \<noteq> []"
  by (auto simp: groupOf_def groupBySubnet_def fold_group_keys fold_appendBySubnet
      split: if_splits)

lemma set_records:
  assumes "rangeOrder keys m"
  shows "set (List.map_filter m keys) = ran m"
proof -
  have "set (List.map_filter m keys) = {y. \<exists>x\<in>set keys. m x = Some y}"
    by (auto simp: map_filter_def image_iff) force
  also have "\<dots> = ran m" using assms by (auto simp: rangeOrder_def ran_def)
  finally show ?thesis .
qed

lemma distinct_records:
  assumes "rangeOrder keys m" and "keyedByIP m"
  shows "distinct (List.map_filter m keys)"
proof -
  have "inj_on (the \<circ> m) {k \<in> set keys. m k \<noteq> None}"
  proof (rule inj_onI)
    fix a b
    assume "a \<in> {k \<in> set keys. m k \<noteq> None}" "b \<in> {k \<in> set keys. m k \<noteq> None}"
      and eq: "(the \<circ> m) a = (the \<circ> m) b"
    then obtain ra rb where "m a = Some ra" "m b = Some rb" by auto
    with eq assms(2) show "a = b" unfolding keyedByIP_def by (metis comp_apply option.sel)
  qed
  with assms(1) show ?thesis
    by (simp add: map_filter_def distinct_map rangeOrder_def)
qed

lemma groups_partition:
  assumes "rangeOrder keys m" and "keyedByIP m"
  shows "(\<forall>r\<in>ran m. \<forall>s. r \<in> set (groupOf (groupBySubnet keys m) s) \<longleftrightarrow> s = Subnet r) \<and>
    (\<forall>s. distinct (groupOf (groupBySubnet keys m) s)) \<and>
    (\<forall>s. set (groupOf (groupBySubnet keys m) s) = {r \<in> ran m. Subnet r = s})"
  using set_records[OF assms(1)] distinct_records[OF assms]
  by (auto simp: groupOf_groupBySubnet)

section \<open>Writing the reports\<close>

lemma writeToFile_cases:
  "writeToFile w subnet l sofar = (Fatal err, ops) \<Longrightarrow> ops = sofar \<or> ops = sofar @ [Create (subnet @ ''.md'')]"
  by (auto simp: writeToFile_def Let_def dropped_def split: option.splits)

lemma writeToFile_renders:
  assumes "Render f rows \<in> set (snd (writeToFile w subnet l sofar))"
  shows "Render f rows \<in> set sofar \<or> (f = subnet @ ''.md'' \<and> rows = tableData (netParseIP w) l)"
  using assms by (auto simp: writeToFile_def Let_def dropped_def split: option.splits)

lemma writeAllLoop_renders:
  assumes "Render f rows \<in> set (snd (writeAllLoop w g order sofar))"
  shows "Render f rows \<in> set sofar \<or>
    (\<exists>s l. s \<noteq> [] \<and> g s = Some l \<and> f = s @ ''.md'' \<and> rows = tableData (netParseIP w) l)"
  using assms
proof (induction order arbitrary: sofar)
  case Nil
  then show ?case by simp
next
  case (Cons subnet rest)
  show ?case
  proof (cases "g subnet")
    case None
    with Cons show ?thesis by simp
  next
    case (Some l)
    show ?thesis
    proof (cases "subnet = []")
      case True
      with Some Cons show ?thesis by simp
    next
      case False
      obtain out ops where wf: "writeToFile w subnet l sofar = (out, ops)"
        by (cases "writeToFile w subnet l sofar")
      have step: "Render f rows \<in> set ops \<Longrightarrow> ?thesis"
        using writeToFile_renders[of f rows w subnet l "sofar"] wf Some False by auto
      show ?thesis
      proof (cases out)
        case (Done u)
        with Cons.prems Some False wf
        have "Render f rows \<in> set (snd (writeAllLoop w g rest ops))" by simp
        from Cons.IH[OF this] step show ?thesis by blast
      next
        case (Fatal err)
        with Cons.prems Some False wf have "Render f rows \<in> set ops" by simp
        then show ?thesis by (rule step)
      next
        case (Panicked e)
        with Cons.prems Some False wf have "Render f rows \<in> set ops" by simp
        then show ?thesis by (rule step)
      qed
    qed
  qed
qed

lemma set_tableData:
  "set (tableData parseIP l) =
     (\<lambda>addressInfo. [IP addressInfo, Project addressInfo, Status addressInfo, User addressInfo]) ` set l"
proof -
  have "set (sortSlice (ipLess parseIP) l) = set l"
    using mset_sortSlice[of "ipLess parseIP" l] by (metis set_mset_mset)
  then show ?thesis by (simp add: tableData_def)
qed

lemma renderedIPs_writeAll:
  assumes "ip \<in> renderedIPs (snd (writeAll w g []))"
  shows "\<exists>s l r. s \<noteq> [] \<and> g s = Some l \<and> r \<in> set l \<and> IP r = ip"
proof -
  from assms obtain f rows row where "Render f rows \<in> set (snd (writeAll w g []))"
    and row: "row \<in> set rows" "hd row = ip"
    unfolding renderedIPs_def by blast
  then have "Render f rows \<in> set (snd (writeAllLoop w g (subnetOrder w) []))"
    by (simp add: writeAll_def)
  from writeAllLoop_renders[OF this] obtain s l where
    sl: "s \<noteq> []" "g s = Some l" "rows = tableData (netParseIP w) l"
    by auto
  from row(1) sl(3) obtain r where "r \<in> set l"
    "row = [IP r, Project r, Status r, User r]"
    by (auto simp: set_tableData)
  with row(2) sl show ?thesis by auto
qed

section \<open>The scenarios, evaluated\<close>

lemma getName_empty: "last (Split []) = []"
  by (simp add: last_Split)

lemma flatten_a_c:
  "flatten [Some svc_a, Some svc_c] =
     Inr [''10.0.0.5'' \<mapsto>
            \<lparr>Project = ''svc-a'', IP = ''10.0.0.5'', Status = ''RESERVED'', Subnet = ''sub1'',
             User = []\<rparr>,
          ''10.0.0.7'' \<mapsto>
            \<lparr>Project = ''svc-c'', IP = ''10.0.0.7'', Status = ''RESERVED'', Subnet = [],
             User = []\<rparr>]"
  by (simp add: flatten_def svc_a_def svc_a_addresses_def svc_a_address_def svc_c_def addressScope_def instanceScope_def
      getName_Inr getName_sub1 getName_empty insertAddressInfo_def Let_def)

lemma rangeOrder_a_c:
  "rangeOrder [''10.0.0.7'', ''10.0.0.5'']
     [''10.0.0.5'' \<mapsto>
            \<lparr>Project = ''svc-a'', IP = ''10.0.0.5'', Status = ''RESERVED'', Subnet = ''sub1'',
             User = []\<rparr>,
      ''10.0.0.7'' \<mapsto>
            \<lparr>Project = ''svc-c'', IP = ''10.0.0.7'', Status = ''RESERVED'', Subnet = [],
             User = []\<rparr>]"
  by (auto simp: rangeOrder_def)

lemma groupBySubnet_a_c:
  "groupBySubnet [''10.0.0.7'', ''10.0.0.5'']
     [''10.0.0.5'' \<mapsto>
            \<lparr>Project = ''svc-a'', IP = ''10.0.0.5'', Status = ''RESERVED'', Subnet = ''sub1'',
             User = []\<rparr>,
      ''10.0.0.7'' \<mapsto>
            \<lparr>Project = ''svc-c'', IP = ''10.0.0.7'', Status = ''RESERVED'', Subnet = [],
             User = []\<rparr>] =
   [[] \<mapsto> [\<lparr>Project = ''svc-c'', IP = ''10.0.0.7'', Status = ''RESERVED'', Subnet = [],
             User = []\<rparr>],
    ''sub1'' \<mapsto> [\<lparr>Project = ''svc-a'', IP = ''10.0.0.5'', Status = ''RESERVED'',
             Subnet = ''sub1'', User = []\<rparr>]]"
  by (simp add: groupBySubnet_def appendBySubnet_def Let_def)

lemma tableData_single: "tableData parseIP [r] = [[IP r, Project r, Status r, User r]]"
  by (simp add: tableData_def sortSlice_def)

lemma writeAll_a_c:
  "writeAll (scenarioWorld\<lparr>subnetOrder := [[], ''sub1'']\<rparr>)
     [[] \<mapsto> [\<lparr>Project = ''svc-c'', IP = ''10.0.0.7'', Status = ''RESERVED'', Subnet = [],
             User = []\<rparr>],
      ''sub1'' \<mapsto> [\<lparr>Project = ''svc-a'', IP = ''10.0.0.5'', Status = ''RESERVED'',
             Subnet = ''sub1'', User = []\<rparr>]] [] =
   (Done (),
    [Create ''sub1.md'', WriteString ''sub1.md'' (''# Reserved IPs for sub1'' @ [CHR 0x0A]),
     Render ''sub1.md'' [[''10.0.0.5'', ''svc-a'', ''RESERVED'', []]], Close ''sub1.md''])"
  by (simp add: writeAll_def writeToFile_def scenarioWorld_def tableData_single Let_def
      dropped_def)

lemma getResources_scenario:
  "AddressesAggregatedList w = AddressesAggregatedList scenarioWorld \<Longrightarrow>
   InstancesAggregatedList w = InstancesAggregatedList scenarioWorld \<Longrightarrow>
   getResources w ''svc-a'' = svc_a \<and> getResources w ''svc-b'' = svc_b"
  by (simp add: getResources_def scenarioWorld_def svc_a_def svc_a_addresses_def svc_a_address_def svc_b_def)

lemma getAllResources_scenario:
  assumes "GetXpnResources w = GetXpnResources scenarioWorld"
    and "AddressesAggregatedList w = AddressesAggregatedList scenarioWorld"
    and "InstancesAggregatedList w = InstancesAggregatedList scenarioWorld"
    and "arrival w = [0, 1]"
  shows "getAllResources w ''H'' = Done [Some svc_a, Some svc_b]"
  using getResources_scenario[OF assms(2,3)] assms(1,4)
  by (simp add: getAllResources_def scenarioWorld_def)

lemma groupBySubnet_scenario:
  "groupBySubnet [''10.0.0.5'']
     [''10.0.0.5'' \<mapsto>
       \<lparr>Project = ''svc-a'', IP = ''10.0.0.5'', Status = ''RESERVED'', Subnet = ''sub1'',
        User = ''vm1''\<rparr>] =
   [''sub1'' \<mapsto> [\<lparr>Project = ''svc-a'', IP = ''10.0.0.5'', Status = ''RESERVED'',
        Subnet = ''sub1'', User = ''vm1''\<rparr>]]"
  by (simp add: groupBySubnet_def appendBySubnet_def Let_def)

lemma extractFields_scenario:
  "extractFields [''10.0.0.5''] [Some svc_a, Some svc_b] =
   Inr [''sub1'' \<mapsto> [\<lparr>Project = ''svc-a'', IP = ''10.0.0.5'', Status = ''RESERVED'',
        Subnet = ''sub1'', User = ''vm1''\<rparr>]]"
  by (simp add: extractFields_def flatten_scenario groupBySubnet_scenario)

lemma flatten_a_alone:
  "flatten [Some \<lparr>Resources_Project = ''svc-a'', AddressList = Some svc_a_addresses,
      InstanceList = None\<rparr>] =
     Inr [''10.0.0.5'' \<mapsto>
            \<lparr>Project = ''svc-a'', IP = ''10.0.0.5'', Status = ''RESERVED'', Subnet = ''sub1'',
             User = []\<rparr>]"
  by (simp add: flatten_def svc_a_addresses_def svc_a_address_def addressScope_def
      getName_Inr getName_sub1 insertAddressInfo_def Let_def)

section \<open>The claims about grouping and reporting\<close>

text \<open>
  C8: when the merger returns, the grouper returns too, and its groups partition the
  merged records by subnet: a record is in the group of its subnet and in no other, no
  group holds a record twice, the keys are the subnets that occur, the groups of the
  non-empty subnets together hold exactly the records with a non-empty subnet, and the
  group of the empty key holds the others.
\<close>

theorem extractFields_partition:
  assumes "flatten ps = Inr m" and "rangeOrder keys m"
  shows "extractFields keys ps = Inr (groupBySubnet keys m) \<and>
    (\<forall>r\<in>ran m. \<forall>s. r \<in> set (groupOf (groupBySubnet keys m) s) \<longleftrightarrow> s = Subnet r) \<and>
    (\<forall>s. distinct (groupOf (groupBySubnet keys m) s)) \<and>
    dom (groupBySubnet keys m) = Subnet ` ran m \<and>
    (\<Union>s\<in>{s. s \<noteq> []}. set (groupOf (groupBySubnet keys m) s)) = {r \<in> ran m. Subnet r \<noteq> []} \<and>
    set (groupOf (groupBySubnet keys m) []) = {r \<in> ran m. Subnet r = []}"
proof -
  let ?g = "groupBySubnet keys m"
  have k: "keyedByIP m" using assms(1) by (rule keyedByIP_flatten)
  have part: "(\<forall>r\<in>ran m. \<forall>s. r \<in> set (groupOf ?g s) \<longleftrightarrow> s = Subnet r) \<and>
    (\<forall>s. distinct (groupOf ?g s)) \<and> (\<forall>s. set (groupOf ?g s) = {r \<in> ran m. Subnet r = s})"
    using assms(2) k by (rule groups_partition)
  have sets: "\<And>s. set (groupOf ?g s) = {r \<in> ran m. Subnet r = s}" using part by blast
  have "dom ?g = Subnet ` ran m"
  proof (intro set_eqI iffI)
    fix s
    assume "s \<in> dom ?g"
    then obtain l where l: "?g s = Some l" by auto
    from groupBySubnet_Some[OF l] have "set (groupOf ?g s) \<noteq> {}" by auto
    with sets[of s] show "s \<in> Subnet ` ran m" by auto
  next
    fix s
    assume "s \<in> Subnet ` ran m"
    with sets[of s] have "set (groupOf ?g s) \<noteq> {}" by auto
    then show "s \<in> dom ?g" by (cases "?g s") (auto simp: groupOf_def)
  qed
  moreover have "(\<Union>s\<in>{s. s \<noteq> []}. set (groupOf ?g s)) = {r \<in> ran m. Subnet r \<noteq> []}"
    using sets by auto
  moreover have "extractFields keys ps = Inr ?g" using assms(1) by (simp add: extractFields_def)
  ultimately show ?thesis using part sets[of "[]"] by blast
qed

theorem extractFields_partition_witness:
  "flatten [Some svc_a, Some svc_c] =
     Inr [''10.0.0.5'' \<mapsto>
            \<lparr>Project = ''svc-a'', IP = ''10.0.0.5'', Status = ''RESERVED'', Subnet = ''sub1'',
             User = []\<rparr>,
          ''10.0.0.7'' \<mapsto>
            \<lparr>Project = ''svc-c'', IP = ''10.0.0.7'', Status = ''RESERVED'', Subnet = [],
             User = []\<rparr>] \<and>
   rangeOrder [''10.0.0.7'', ''10.0.0.5'']
     [''10.0.0.5'' \<mapsto>
            \<lparr>Project = ''svc-a'', IP = ''10.0.0.5'', Status = ''RESERVED'', Subnet = ''sub1'',
             User = []\<rparr>,
      ''10.0.0.7'' \<mapsto>
            \<lparr>Project = ''svc-c'', IP = ''10.0.0.7'', Status = ''RESERVED'', Subnet = [],
             User = []\<rparr>] \<and>
   extractFields [''10.0.0.7'', ''10.0.0.5''] [Some svc_a, Some svc_c] =
     Inr [[] \<mapsto> [\<lparr>Project = ''svc-c'', IP = ''10.0.0.7'', Status = ''RESERVED'', Subnet = [],
             User = []\<rparr>],
          ''sub1'' \<mapsto> [\<lparr>Project = ''svc-a'', IP = ''10.0.0.5'', Status = ''RESERVED'',
             Subnet = ''sub1'', User = []\<rparr>]]"
  using extractFields_partition[OF flatten_a_c rangeOrder_a_c] flatten_a_c rangeOrder_a_c
  by (simp only: groupBySubnet_a_c)

text \<open>
  C7: a merged record with an empty subnet is kept by the grouper, in the group of the
  empty key, and whatever the order of the subnets and whatever fails, no report gets a
  row with its IP.
\<close>

theorem empty_subnet_never_written:
  assumes "flatten ps = Inr m" and "rangeOrder keys m" and "m k = Some r" and "Subnet r = []"
  shows "extractFields keys ps = Inr (groupBySubnet keys m) \<and>
    r \<in> set (groupOf (groupBySubnet keys m) []) \<and>
    IP r \<notin> renderedIPs (snd (writeAll w (groupBySubnet keys m) []))"
proof -
  let ?g = "groupBySubnet keys m"
  have k: "keyedByIP m" using assms(1) by (rule keyedByIP_flatten)
  have sets: "\<And>s. set (groupOf ?g s) = {r \<in> ran m. Subnet r = s}"
    using groups_partition[OF assms(2) k] by blast
  have r: "r \<in> ran m" using assms(3) by (auto simp: ran_def)
  have "IP r \<notin> renderedIPs (snd (writeAll w ?g []))"
  proof
    assume "IP r \<in> renderedIPs (snd (writeAll w ?g []))"
    from renderedIPs_writeAll[OF this] obtain s l r' where
      s: "s \<noteq> []" and l: "?g s = Some l" and r': "r' \<in> set l" "IP r' = IP r"
      by blast
    from groupBySubnet_Some[OF l] r'(1) sets[of s] have "r' \<in> ran m" "Subnet r' = s" by auto
    then obtain k' where "m k' = Some r'" by (auto simp: ran_def)
    with k assms(3) r'(2) have "r' = r" unfolding keyedByIP_def by (metis option.sel)
    with \<open>Subnet r' = s\<close> s assms(4) show False by simp
  qed
  moreover have "extractFields keys ps = Inr ?g" using assms(1) by (simp add: extractFields_def)
  ultimately show ?thesis using sets[of "[]"] r assms(4) by simp
qed

theorem empty_subnet_never_written_witness:
  "flatten [Some svc_a, Some svc_c] =
     Inr [''10.0.0.5'' \<mapsto>
            \<lparr>Project = ''svc-a'', IP = ''10.0.0.5'', Status = ''RESERVED'', Subnet = ''sub1'',
             User = []\<rparr>,
          ''10.0.0.7'' \<mapsto>
            \<lparr>Project = ''svc-c'', IP = ''10.0.0.7'', Status = ''RESERVED'', Subnet = [],
             User = []\<rparr>] \<and>
   ''10.0.0.7'' \<notin> renderedIPs (snd (writeAll (scenarioWorld\<lparr>subnetOrder := [[], ''sub1'']\<rparr>)
     [[] \<mapsto> [\<lparr>Project = ''svc-c'', IP = ''10.0.0.7'', Status = ''RESERVED'', Subnet = [],
             User = []\<rparr>],
      ''sub1'' \<mapsto> [\<lparr>Project = ''svc-a'', IP = ''10.0.0.5'', Status = ''RESERVED'',
             Subnet = ''sub1'', User = []\<rparr>]] [])) \<and>
   snd (writeAll (scenarioWorld\<lparr>subnetOrder := [[], ''sub1'']\<rparr>)
     [[] \<mapsto> [\<lparr>Project = ''svc-c'', IP = ''10.0.0.7'', Status = ''RESERVED'', Subnet = [],
             User = []\<rparr>],
      ''sub1'' \<mapsto> [\<lparr>Project = ''svc-a'', IP = ''10.0.0.5'', Status = ''RESERVED'',
             Subnet = ''sub1'', User = []\<rparr>]] []) =
    [Create ''sub1.md'', WriteString ''sub1.md'' (''# Reserved IPs for sub1'' @ [CHR 0x0A]),
     Render ''sub1.md'' [[''10.0.0.5'', ''svc-a'', ''RESERVED'', []]], Close ''sub1.md'']"
proof -
  have entry: "[''10.0.0.5'' \<mapsto>
            \<lparr>Project = ''svc-a'', IP = ''10.0.0.5'', Status = ''RESERVED'', Subnet = ''sub1'',
             User = []\<rparr>,
          ''10.0.0.7'' \<mapsto>
            \<lparr>Project = ''svc-c'', IP = ''10.0.0.7'', Status = ''RESERVED'', Subnet = [],
             User = []\<rparr>] ''10.0.0.7'' =
     Some \<lparr>Project = ''svc-c'', IP = ''10.0.0.7'', Status = ''RESERVED'', Subnet = [],
             User = []\<rparr>"
    by simp
  have empty: "Subnet \<lparr>Project = ''svc-c'', IP = ''10.0.0.7'', Status = ''RESERVED'', Subnet = [],
             User = []\<rparr> = []"
    by simp
  from empty_subnet_never_written[OF flatten_a_c rangeOrder_a_c entry empty,
      of "scenarioWorld\<lparr>subnetOrder := [[], ''sub1'']\<rparr>"]
  show ?thesis
    by (simp only: groupBySubnet_a_c flatten_a_c writeAll_a_c) simp
qed

section \<open>The claims about failures\<close>

lemma writeAllLoop_append:
  "writeAllLoop w g (before @ rest) sofar =
     (case writeAllLoop w g before sofar of
        (Done u, ops) \<Rightarrow> writeAllLoop w g rest ops
      | (Fatal err, ops) \<Rightarrow> (Fatal err, ops)
      | (Panicked e, ops) \<Rightarrow> (Panicked e, ops))"
proof (induction before arbitrary: sofar)
  case Nil
  then show ?case by simp
next
  case (Cons subnet before)
  show ?case
  proof (cases "g subnet")
    case None
    with Cons show ?thesis by simp
  next
    case (Some l)
    show ?thesis
    proof (cases "subnet = []")
      case True
      with Some Cons show ?thesis by simp
    next
      case False
      obtain out ops where wf: "writeToFile w subnet l sofar = (out, ops)"
        by (cases "writeToFile w subnet l sofar")
      with Some False Cons show ?thesis by (cases out) simp_all
    qed
  qed
qed

lemma main_writes:
  assumes "2 \<le> length args" and "initClientError w = None"
    and "getAllResources w (args ! 1) = Done resources"
    and "extractFields (ipOrder w) resources = Inr g"
  shows "main w args = writeAllLoop w g (subnetOrder w) []"
  using assms by (simp add: main_def writeAll_def Let_def)

lemma writeAllLoop_continues:
  assumes "writeAllLoop w g before [] = (Done (), ops)" and "g subnet = Some l"
    and "subnet \<noteq> []" and "writeToFile w subnet l ops = (Done (), ops')"
  shows "writeAllLoop w g (before @ subnet # rest) [] = writeAllLoop w g rest ops'"
  using assms by (simp add: writeAllLoop_append)

lemma writeAllLoop_fatal:
  assumes "writeAllLoop w g before [] = (Done (), ops)" and "g subnet = Some l"
    and "subnet \<noteq> []" and "writeToFile w subnet l ops = (Fatal err, ops')"
  shows "writeAllLoop w g (before @ subnet # rest) [] = (Fatal err, ops')"
  using assms by (simp add: writeAllLoop_append)

lemma forEach_projectStep_absent:
  assumes "\<forall>p\<in>set ps. \<exists>s. p = Some s \<and> AddressList s = None \<and> InstanceList s = None"
  shows "forEach projectStep ps m = Inr m"
  using assms by (induction ps) auto

lemma groupBySubnet_empty: "groupBySubnet keys Map.empty = Map.empty"
proof -
  have "fold (\<lambda>k g. g) keys g0 = g0" for g0 :: "string \<rightharpoonup> AddressInfo list"
    by (induction keys) simp_all
  then show ?thesis by (simp add: groupBySubnet_def)
qed

lemma writeAllLoop_empty: "writeAllLoop w Map.empty order sofar = (Done (), sofar)"
  by (induction order) simp_all

lemma main_all_fetches_fail:
  assumes "2 \<le> length args" and "initClientError w = None"
    and "GetXpnResources w (args ! 1) = Inr resourceIDs" and "projectIDs resourceIDs = Inr ids"
    and "\<forall>project. \<exists>e. AddressesAggregatedList w project = Inl e"
    and "\<forall>project. \<exists>e. InstancesAggregatedList w project = Inl e"
  shows "main w args = (Done (), [])"
proof -
  let ?rs = "map (\<lambda>i. Some (getResources w (ids ! i))) (arrival w)"
  have g: "getAllResources w (args ! 1) = Done ?rs"
    using assms(3,4) by (simp add: getAllResources_def)
  have absent: "AddressList (getResources w project) = None \<and>
      InstanceList (getResources w project) = None" for project
    using assms(5)[rule_format, of project] assms(6)[rule_format, of project]
    by (auto simp: getResources_def)
  have "\<forall>p\<in>set ?rs. \<exists>s. p = Some s \<and> AddressList s = None \<and> InstanceList s = None"
    using absent by auto
  then have "flatten ?rs = Inr Map.empty"
    unfolding flatten_def by (rule forEach_projectStep_absent)
  then have "extractFields (ipOrder w) ?rs = Inr Map.empty"
    by (simp add: extractFields_def groupBySubnet_empty)
  from main_writes[OF assms(1,2) g this] show ?thesis by (simp add: writeAllLoop_empty)
qed

lemma getAllResources_collects:
  assumes "GetXpnResources w hostProject = Inr resourceIDs" and "projectIDs resourceIDs = Inr ids"
    and "validArrival w (length ids)"
  shows "\<exists>out. getAllResources w hostProject = Done out \<and>
    mset out = mset (map (\<lambda>project. Some (getResources w project)) ids)"
proof -
  let ?f = "\<lambda>i. Some (getResources w (ids ! i))"
  have "mset (map ?f (arrival w)) = image_mset ?f (mset [0..<length ids])"
    using assms(3) by (simp add: validArrival_def)
  also have "\<dots> = mset (map ?f [0..<length ids])" by simp
  also have "map ?f [0..<length ids] = map (\<lambda>project. Some (getResources w project)) ids"
    by (rule nth_equalityI) simp_all
  finally show ?thesis using assms(1,2) by (simp add: getAllResources_def)
qed

text \<open>
  C5: \<^verbatim>\<open>getResources\<close> returns a snapshot of the project whatever the two calls
  answer, with a list absent exactly when its call failed. A snapshot without its list
  of instances is merged as its addresses alone; and when the merger returns, every
  address of a snapshot whose instance call failed has its record in the merged map,
  under its IP, with no field empty that the address fills.
\<close>

theorem partial_failure_isolation:
  "Resources_Project (getResources w project) = project \<and>
   AddressList (getResources w project) =
     (case AddressesAggregatedList w project of Inl e \<Rightarrow> None | Inr l \<Rightarrow> Some l) \<and>
   InstanceList (getResources w project) =
     (case InstancesAggregatedList w project of Inl e \<Rightarrow> None | Inr l \<Rightarrow> Some l) \<and>
   (InstancesAggregatedList w project = Inl err \<and> AddressesAggregatedList w project = Inr al \<longrightarrow>
      getResources w project =
        \<lparr>Resources_Project = project, AddressList = Some al, InstanceList = None\<rparr> \<and>
      projectStep m0 (Some (getResources w project)) =
        forEach (addressScope project) (Address_Items al) m0 \<and>
      (Some (getResources w project) \<in> set ps \<and> flatten ps = Inr m \<and> a \<in> addressesOf al \<longrightarrow>
         (\<exists>r. m (Address_Address a) = Some r \<and> IP r = Address_Address a \<and>
              covers r (addressCandidate project a))))"
proof -
  have fields: "Resources_Project (getResources w project) = project"
    "AddressList (getResources w project) =
       (case AddressesAggregatedList w project of Inl e \<Rightarrow> None | Inr l \<Rightarrow> Some l)"
    "InstanceList (getResources w project) =
       (case InstancesAggregatedList w project of Inl e \<Rightarrow> None | Inr l \<Rightarrow> Some l)"
    by (simp_all add: getResources_def)
  have "\<exists>r. m (Address_Address a) = Some r \<and> IP r = Address_Address a \<and>
      covers r (addressCandidate project a)"
    if "InstancesAggregatedList w project = Inl err" "AddressesAggregatedList w project = Inr al"
      "Some (getResources w project) \<in> set ps" "flatten ps = Inr m" "a \<in> addressesOf al"
  proof -
    have al: "AddressList (getResources w project) = Some al" using that(2) fields(2) by simp
    from flatten_covers_address[OF that(4) that(3) al that(5)] fields(1)
    obtain r where r: "m (Address_Address a) = Some r" "covers r (addressCandidate project a)"
      by auto
    from keyedByIP_flatten[OF that(4)] r(1) have "IP r = Address_Address a"
      by (simp add: keyedByIP_def)
    with r show ?thesis by blast
  qed
  moreover have "getResources w project =
        \<lparr>Resources_Project = project, AddressList = Some al, InstanceList = None\<rparr> \<and>
      projectStep m0 (Some (getResources w project)) =
        forEach (addressScope project) (Address_Items al) m0"
    if "InstancesAggregatedList w project = Inl err" "AddressesAggregatedList w project = Inr al"
    using that by (simp add: getResources_def split: sum.splits)
  ultimately show ?thesis using fields by blast
qed

theorem partial_failure_isolation_witness:
  "InstancesAggregatedList (scenarioWorld\<lparr>InstancesAggregatedList := \<lambda>project. Inl ''timeout''\<rparr>)
     ''svc-a'' = Inl ''timeout'' \<and>
   AddressesAggregatedList (scenarioWorld\<lparr>InstancesAggregatedList := \<lambda>project. Inl ''timeout''\<rparr>)
     ''svc-a'' = Inr svc_a_addresses \<and>
   svc_a_address \<in> addressesOf svc_a_addresses \<and>
   getResources (scenarioWorld\<lparr>InstancesAggregatedList := \<lambda>project. Inl ''timeout''\<rparr>) ''svc-a'' =
     \<lparr>Resources_Project = ''svc-a'', AddressList = Some svc_a_addresses, InstanceList = None\<rparr> \<and>
   flatten [Some (getResources
       (scenarioWorld\<lparr>InstancesAggregatedList := \<lambda>project. Inl ''timeout''\<rparr>) ''svc-a'')] =
     Inr [''10.0.0.5'' \<mapsto>
            \<lparr>Project = ''svc-a'', IP = ''10.0.0.5'', Status = ''RESERVED'', Subnet = ''sub1'',
             User = []\<rparr>] \<and>
   (\<exists>r. [''10.0.0.5'' \<mapsto>
            \<lparr>Project = ''svc-a'', IP = ''10.0.0.5'', Status = ''RESERVED'', Subnet = ''sub1'',
             User = []\<rparr>] (Address_Address svc_a_address) = Some r \<and>
        IP r = Address_Address svc_a_address \<and>
        covers r (addressCandidate ''svc-a'' svc_a_address))"
proof -
  let ?w = "scenarioWorld\<lparr>InstancesAggregatedList := \<lambda>project. Inl ''timeout''\<rparr>"
  let ?m = "[''10.0.0.5'' \<mapsto>
            \<lparr>Project = ''svc-a'', IP = ''10.0.0.5'', Status = ''RESERVED'', Subnet = ''sub1'',
             User = []\<rparr>]"
  have i: "InstancesAggregatedList ?w ''svc-a'' = Inl ''timeout''" by simp
  have a: "AddressesAggregatedList ?w ''svc-a'' = Inr svc_a_addresses"
    by (simp add: scenarioWorld_def)
  have mem: "svc_a_address \<in> addressesOf svc_a_addresses"
    by (simp add: addressesOf_def svc_a_addresses_def)
  have g: "getResources ?w ''svc-a'' =
      \<lparr>Resources_Project = ''svc-a'', AddressList = Some svc_a_addresses, InstanceList = None\<rparr>"
    using i a by (simp add: getResources_def)
  have f: "flatten [Some (getResources ?w ''svc-a'')] = Inr ?m"
    unfolding g by (rule flatten_a_alone)
  have s: "Some (getResources ?w ''svc-a'') \<in> set [Some (getResources ?w ''svc-a'')]" by simp
  from partial_failure_isolation[of ?w "''svc-a''" "''timeout''" svc_a_addresses Map.empty
      "[Some (getResources ?w ''svc-a'')]" ?m svc_a_address] i a mem s f
  have "\<exists>r. ?m (Address_Address svc_a_address) = Some r \<and>
        IP r = Address_Address svc_a_address \<and>
        covers r (addressCandidate ''svc-a'' svc_a_address)"
    by blast
  with i a mem g f show ?thesis by blast
qed

text \<open>
  C6 as stated fails on the table: when the table of sub1.md meets a write error, the
  error is dropped, the file is closed and the run ends with exit status 0.
\<close>

theorem render_failure_not_fatal_counterexample:
  "RenderError renderFailsWorld ''sub1.md'' = Some ''full'' \<and>
   main renderFailsWorld [''gcp-ips'', ''H''] =
     (Done (),
      [Create ''sub1.md'', WriteString ''sub1.md'' (''# Reserved IPs for sub1'' @ [CHR 0x0A]),
       Render ''sub1.md'' [[''10.0.0.5'', ''svc-a'', ''RESERVED'', ''vm1'']],
       Dropped ''sub1.md'' ''full'', Close ''sub1.md'']) \<and>
   exitCode (fst (main renderFailsWorld [''gcp-ips'', ''H''])) = 0"
proof -
  have r: "getAllResources renderFailsWorld ([''gcp-ips'', ''H''] ! 1) = Done [Some svc_a, Some svc_b]"
    using getAllResources_scenario[of renderFailsWorld]
    by (simp add: renderFailsWorld_def scenarioWorld_def)
  have e: "extractFields (ipOrder renderFailsWorld) [Some svc_a, Some svc_b] =
      Inr [''sub1'' \<mapsto> [\<lparr>Project = ''svc-a'', IP = ''10.0.0.5'', Status = ''RESERVED'',
        Subnet = ''sub1'', User = ''vm1''\<rparr>]]"
    using extractFields_scenario by (simp add: renderFailsWorld_def scenarioWorld_def)
  have i: "initClientError renderFailsWorld = None"
    by (simp add: renderFailsWorld_def scenarioWorld_def)
  have "main renderFailsWorld [''gcp-ips'', ''H''] =
      writeAllLoop renderFailsWorld
        [''sub1'' \<mapsto> [\<lparr>Project = ''svc-a'', IP = ''10.0.0.5'', Status = ''RESERVED'',
          Subnet = ''sub1'', User = ''vm1''\<rparr>]] (subnetOrder renderFailsWorld) []"
    by (rule main_writes[OF _ i r e]) simp
  then have m: "main renderFailsWorld [''gcp-ips'', ''H''] =
     (Done (),
      [Create ''sub1.md'', WriteString ''sub1.md'' (''# Reserved IPs for sub1'' @ [CHR 0x0A]),
       Render ''sub1.md'' [[''10.0.0.5'', ''svc-a'', ''RESERVED'', ''vm1'']],
       Dropped ''sub1.md'' ''full'', Close ''sub1.md''])"
    by (simp add: renderFailsWorld_def scenarioWorld_def writeToFile_def tableData_single
        dropped_def Let_def)
  have "RenderError renderFailsWorld ''sub1.md'' = Some ''full''"
    by (simp add: renderFailsWorld_def)
  with m show ?thesis by simp
qed

text \<open>
  C6, as the code has it: when the service projects cannot be listed, \<^verbatim>\<open>main\<close> ends
  in \<^verbatim>\<open>log.Fatal\<close> with that error, exit status 1 and no file touched. When the file
  of a subnet cannot be created, or its heading cannot be written, \<^verbatim>\<open>main\<close> ends in
  \<^verbatim>\<open>log.Fatal\<close> with that error and exit status 1 right there: the sink operations
  are those of the subnets before it, and the file just created in the second case.
  When the file is created and its heading written, the run goes on with the subnets
  that follow, whatever error the table or the close of the file meets: that error is
  dropped. The fetches of a project are not fatal either: once the service projects
  are listed, \<^verbatim>\<open>getAllResources\<close> returns one snapshot for each arrival whatever the
  fetches answer, and even when every fetch of every project fails the run ends with
  exit status 0.
\<close>

theorem fatal_and_recoverable_errors:
  "(2 \<le> length args \<and> initClientError w = None \<and> GetXpnResources w (args ! 1) = Inl err \<longrightarrow>
      main w args = (Fatal err, []) \<and> exitCode (fst (main w args)) = 1) \<and>
   (2 \<le> length args \<and> initClientError w = None \<and>
    getAllResources w (args ! 1) = Done resources \<and>
    extractFields (ipOrder w) resources = Inr g \<and> subnetOrder w = before @ subnet # rest \<and>
    writeAllLoop w g before [] = (Done (), ops) \<and> g subnet = Some l \<and> subnet \<noteq> [] \<longrightarrow>
      (CreateError w (subnet @ ''.md'') = Some err \<longrightarrow>
         main w args = (Fatal err, ops) \<and> exitCode (fst (main w args)) = 1) \<and>
      (CreateError w (subnet @ ''.md'') = None \<and>
       WriteStringError w (subnet @ ''.md'') = Some err \<longrightarrow>
         main w args = (Fatal err, ops @ [Create (subnet @ ''.md'')]) \<and>
         exitCode (fst (main w args)) = 1) \<and>
      (CreateError w (subnet @ ''.md'') = None \<and>
       WriteStringError w (subnet @ ''.md'') = None \<longrightarrow>
         main w args =
           writeAllLoop w g rest
             (ops @ [Create (subnet @ ''.md''),
                WriteString (subnet @ ''.md'') (''# Reserved IPs for '' @ subnet @ [CHR 0x0A]),
                Render (subnet @ ''.md'') (tableData (netParseIP w) l)] @
              dropped (RenderError w (subnet @ ''.md'')) (subnet @ ''.md'') @
              [Close (subnet @ ''.md'')] @
              dropped (CloseError w (subnet @ ''.md'')) (subnet @ ''.md'')))) \<and>
   (GetXpnResources w hostProject = Inr resourceIDs \<and> projectIDs resourceIDs = Inr ids \<longrightarrow>
      getAllResources w hostProject =
        Done (map (\<lambda>i. Some (getResources w (ids ! i))) (arrival w))) \<and>
   (2 \<le> length args \<and> initClientError w = None \<and>
    GetXpnResources w (args ! 1) = Inr resourceIDs \<and> projectIDs resourceIDs = Inr ids \<and>
    (\<forall>project. \<exists>e. AddressesAggregatedList w project = Inl e) \<and>
    (\<forall>project. \<exists>e. InstancesAggregatedList w project = Inl e) \<longrightarrow>
      main w args = (Done (), []) \<and> exitCode (fst (main w args)) = 0)"
proof (intro conjI impI)
  assume "2 \<le> length args \<and> initClientError w = None \<and> GetXpnResources w (args ! 1) = Inl err"
  then have m: "main w args = (Fatal err, [])"
    by (simp add: main_def getAllResources_def Let_def)
  then show "main w args = (Fatal err, [])" .
  from m show "exitCode (fst (main w args)) = 1" by simp
next
  assume h: "2 \<le> length args \<and> initClientError w = None \<and>
    getAllResources w (args ! 1) = Done resources \<and>
    extractFields (ipOrder w) resources = Inr g \<and> subnetOrder w = before @ subnet # rest \<and>
    writeAllLoop w g before [] = (Done (), ops) \<and> g subnet = Some l \<and> subnet \<noteq> []"
  then have mw: "main w args = writeAllLoop w g (before @ subnet # rest) []"
    using main_writes[of args w resources g] by simp
  {
    assume "CreateError w (subnet @ ''.md'') = Some err"
    then have "writeToFile w subnet l ops = (Fatal err, ops)"
      by (simp add: writeToFile_def Let_def)
    with h have "writeAllLoop w g (before @ subnet # rest) [] = (Fatal err, ops)"
      by (intro writeAllLoop_fatal) simp_all
    with mw have m: "main w args = (Fatal err, ops)" by simp
    then show "main w args = (Fatal err, ops)" .
    from m show "exitCode (fst (main w args)) = 1" by simp
  }
  {
    assume "CreateError w (subnet @ ''.md'') = None \<and>
       WriteStringError w (subnet @ ''.md'') = Some err"
    then have "writeToFile w subnet l ops = (Fatal err, ops @ [Create (subnet @ ''.md'')])"
      by (simp add: writeToFile_def Let_def)
    with h have "writeAllLoop w g (before @ subnet # rest) [] =
        (Fatal err, ops @ [Create (subnet @ ''.md'')])"
      by (intro writeAllLoop_fatal) simp_all
    with mw have m: "main w args = (Fatal err, ops @ [Create (subnet @ ''.md'')])" by simp
    then show "main w args = (Fatal err, ops @ [Create (subnet @ ''.md'')])" .
    from m show "exitCode (fst (main w args)) = 1" by simp
  }
  {
    let ?ops = "ops @ [Create (subnet @ ''.md''),
                WriteString (subnet @ ''.md'') (''# Reserved IPs for '' @ subnet @ [CHR 0x0A]),
                Render (subnet @ ''.md'') (tableData (netParseIP w) l)] @
              dropped (RenderError w (subnet @ ''.md'')) (subnet @ ''.md'') @
              [Close (subnet @ ''.md'')] @
              dropped (CloseError w (subnet @ ''.md'')) (subnet @ ''.md'')"
    assume "CreateError w (subnet @ ''.md'') = None \<and>
       WriteStringError w (subnet @ ''.md'') = None"
    then have "writeToFile w subnet l ops = (Done (), ?ops)"
      by (simp add: writeToFile_def Let_def)
    with h have "writeAllLoop w g (before @ subnet # rest) [] = writeAllLoop w g rest ?ops"
      by (intro writeAllLoop_continues) simp_all
    with mw show "main w args = writeAllLoop w g rest ?ops" by simp
  }
next
  assume "GetXpnResources w hostProject = Inr resourceIDs \<and> projectIDs resourceIDs = Inr ids"
  then show "getAllResources w hostProject =
      Done (map (\<lambda>i. Some (getResources w (ids ! i))) (arrival w))"
    by (simp add: getAllResources_def)
next
  assume h: "2 \<le> length args \<and> initClientError w = None \<and>
    GetXpnResources w (args ! 1) = Inr resourceIDs \<and> projectIDs resourceIDs = Inr ids \<and>
    (\<forall>project. \<exists>e. AddressesAggregatedList w project = Inl e) \<and>
    (\<forall>project. \<exists>e. InstancesAggregatedList w project = Inl e)"
  then have m: "main w args = (Done (), [])"
    by (intro main_all_fetches_fail[of args w resourceIDs ids]) simp_all
  then show "main w args = (Done (), [])" .
  from m show "exitCode (fst (main w args)) = 0" by simp
qed

theorem fatal_and_recoverable_errors_witness:
  "main (scenarioWorld\<lparr>GetXpnResources := \<lambda>hostProject. Inl ''forbidden''\<rparr>) [''gcp-ips'', ''H''] =
     (Fatal ''forbidden'', []) \<and>
   main (scenarioWorld\<lparr>CreateError := \<lambda>f. Some ''denied''\<rparr>) [''gcp-ips'', ''H''] =
     (Fatal ''denied'', []) \<and>
   main (scenarioWorld\<lparr>WriteStringError := \<lambda>f. Some ''full''\<rparr>) [''gcp-ips'', ''H''] =
     (Fatal ''full'', [Create ''sub1.md'']) \<and>
   main (scenarioWorld\<lparr>AddressesAggregatedList := \<lambda>project. Inl ''timeout'',
       InstancesAggregatedList := \<lambda>project. Inl ''timeout''\<rparr>) [''gcp-ips'', ''H''] =
     (Done (), []) \<and>
   main (scenarioWorld\<lparr>RenderError := \<lambda>f. Some ''full'', CloseError := \<lambda>f. Some ''busy''\<rparr>)
       [''gcp-ips'', ''H''] =
     (Done (),
      [Create ''sub1.md'', WriteString ''sub1.md'' (''# Reserved IPs for sub1'' @ [CHR 0x0A]),
       Render ''sub1.md'' [[''10.0.0.5'', ''svc-a'', ''RESERVED'', ''vm1'']],
       Dropped ''sub1.md'' ''full'', Close ''sub1.md'', Dropped ''sub1.md'' ''busy''])"
proof -
  let ?args = "[''gcp-ips'', ''H'']"
  let ?g = "[''sub1'' \<mapsto> [\<lparr>Project = ''svc-a'', IP = ''10.0.0.5'', Status = ''RESERVED'',
        Subnet = ''sub1'', User = ''vm1''\<rparr>]]"
  let ?l = "[\<lparr>Project = ''svc-a'', IP = ''10.0.0.5'', Status = ''RESERVED'',
        Subnet = ''sub1'', User = ''vm1''\<rparr>]"
  let ?wX = "scenarioWorld\<lparr>GetXpnResources := \<lambda>hostProject. Inl ''forbidden''\<rparr>"
  let ?wC = "scenarioWorld\<lparr>CreateError := \<lambda>f. Some ''denied''\<rparr>"
  let ?wW = "scenarioWorld\<lparr>WriteStringError := \<lambda>f. Some ''full''\<rparr>"
  let ?wF = "scenarioWorld\<lparr>AddressesAggregatedList := \<lambda>project. Inl ''timeout'',
       InstancesAggregatedList := \<lambda>project. Inl ''timeout''\<rparr>"
  have init: "initClientError ?wX = None" "initClientError ?wC = None"
    "initClientError ?wW = None" "initClientError ?wF = None"
    by (simp_all add: scenarioWorld_def)
  have x: "main ?wX ?args = (Fatal ''forbidden'', [])"
    using fatal_and_recoverable_errors[where w = ?wX and args = ?args and err = "''forbidden''"]
      init(1)
    by simp
  have rC: "getAllResources ?wC (?args ! 1) = Done [Some svc_a, Some svc_b]"
    using getAllResources_scenario[of ?wC] by (simp add: scenarioWorld_def)
  have rW: "getAllResources ?wW (?args ! 1) = Done [Some svc_a, Some svc_b]"
    using getAllResources_scenario[of ?wW] by (simp add: scenarioWorld_def)
  have eC: "extractFields (ipOrder ?wC) [Some svc_a, Some svc_b] = Inr ?g"
    using extractFields_scenario by (simp add: scenarioWorld_def)
  have eW: "extractFields (ipOrder ?wW) [Some svc_a, Some svc_b] = Inr ?g"
    using extractFields_scenario by (simp add: scenarioWorld_def)
  have oC: "subnetOrder ?wC = [] @ ''sub1'' # []" and oW: "subnetOrder ?wW = [] @ ''sub1'' # []"
    by (simp_all add: scenarioWorld_def)
  have c: "main ?wC ?args = (Fatal ''denied'', [])"
    using fatal_and_recoverable_errors[where w = ?wC and args = ?args and err = "''denied''"
        and resources = "[Some svc_a, Some svc_b]" and g = ?g and before = "[]"
        and subnet = "''sub1''" and rest = "[]" and ops = "[]" and l = ?l]
      init(2) rC eC oC
    by simp
  have "CreateError ?wW (''sub1'' @ ''.md'') = None" by (simp add: scenarioWorld_def)
  then have wr: "main ?wW ?args = (Fatal ''full'', [Create ''sub1.md''])"
    using fatal_and_recoverable_errors[where w = ?wW and args = ?args and err = "''full''"
        and resources = "[Some svc_a, Some svc_b]" and g = ?g and before = "[]"
        and subnet = "''sub1''" and rest = "[]" and ops = "[]" and l = ?l]
      init(3) rW eW oW
    by simp
  have "GetXpnResources ?wF (?args ! 1) = Inr [Some ''svc-a'', Some ''svc-b'']"
    by (simp add: scenarioWorld_def)
  moreover have "projectIDs [Some ''svc-a'', Some ''svc-b''] = Inr [''svc-a'', ''svc-b'']"
    by simp
  ultimately have f: "main ?wF ?args = (Done (), [])"
    using fatal_and_recoverable_errors[where w = ?wF and args = ?args
        and resourceIDs = "[Some ''svc-a'', Some ''svc-b'']" and ids = "[''svc-a'', ''svc-b'']"]
      init(4)
    by simp
  let ?wR = "scenarioWorld\<lparr>RenderError := \<lambda>f. Some ''full'', CloseError := \<lambda>f. Some ''busy''\<rparr>"
  have iR: "initClientError ?wR = None" by (simp add: scenarioWorld_def)
  have rR: "getAllResources ?wR (?args ! 1) = Done [Some svc_a, Some svc_b]"
    using getAllResources_scenario[of ?wR] by (simp add: scenarioWorld_def)
  have eR: "extractFields (ipOrder ?wR) [Some svc_a, Some svc_b] = Inr ?g"
    using extractFields_scenario by (simp add: scenarioWorld_def)
  have oR: "subnetOrder ?wR = [] @ ''sub1'' # []" by (simp add: scenarioWorld_def)
  have cR: "CreateError ?wR (''sub1'' @ ''.md'') = None"
    "WriteStringError ?wR (''sub1'' @ ''.md'') = None"
    "RenderError ?wR (''sub1'' @ ''.md'') = Some ''full''"
    "CloseError ?wR (''sub1'' @ ''.md'') = Some ''busy''"
    "netParseIP ?wR = ParseIP (\<lambda>s. [])"
    by (simp_all add: scenarioWorld_def)
  have rf: "main ?wR ?args =
     (Done (),
      [Create ''sub1.md'', WriteString ''sub1.md'' (''# Reserved IPs for sub1'' @ [CHR 0x0A]),
       Render ''sub1.md'' [[''10.0.0.5'', ''svc-a'', ''RESERVED'', ''vm1'']],
       Dropped ''sub1.md'' ''full'', Close ''sub1.md'', Dropped ''sub1.md'' ''busy''])"
    using fatal_and_recoverable_errors[where w = ?wR and args = ?args
        and resources = "[Some svc_a, Some svc_b]" and g = ?g and before = "[]"
        and subnet = "''sub1''" and rest = "[]" and ops = "[]" and l = ?l]
      iR rR eR oR cR
    by (simp add: tableData_single dropped_def)
  from x c wr f rf show ?thesis by blast
qed

end
